theory Spec2Isabelle
  imports Complex_Main "HOL-Library.Sublist"
begin

section \<open>JavaScript values and built-ins the service relies on\<close>

text \<open>
  The repository holds two programs: \<^verbatim>\<open>simple-ping.js\<close>, which runs one ping cycle and
  exits, and the scheduled service (the second source file), which runs a cycle at start
  and on every cron tick. Definitions of the first carry the suffix \<open>_simple\<close>, those
  of the second the suffix \<open>_svc\<close>; what both files share word for word has no suffix.

  Strings are \<open>string\<close>: a \<open>char\<close> is one UTF-16 code unit below 256, so the
  strings of the model are those of the Latin-1 range. The strings the programs measure
  or cut (\<^verbatim>\<open>hostname\<close>, \<^verbatim>\<open>pathname\<close>) are ASCII, as the URL parser percent-encodes and
  punycodes its output.

  A JavaScript number that holds an integer is an \<open>int\<close>, and the \<open>int\<close> stands for the
  double nearest to it: itself up to \<open>2 ^ 53\<close> in magnitude, and \<^verbatim>\<open>Infinity\<close> from
  \<open>2 ^ 1024 - 2 ^ 970\<close> on. The tests the programs and Node make on such a number (is
  it zero, is it positive, is it negative, is it finite) have the same answer for the
  integer and for its double; the clock, status codes and lengths are far below
  \<open>2 ^ 53\<close>.

  Of the logging only the text shown for an endpoint is modelled (\<open>displayUrl\<close>,
  \<open>listing\<close>); no log call changes a value or the control flow.
\<close>

subsection \<open>\<^verbatim>\<open>process.env\<close>, \<^verbatim>\<open>split\<close>, \<^verbatim>\<open>trim\<close>\<close>

type_synonym environment = "string \<rightharpoonup> string"

text \<open>The white space and line terminators that \<^verbatim>\<open>trim\<close> and \<^verbatim>\<open>parseInt\<close> skip: tab, line
  feed, vertical tab, form feed, carriage return, space and the no-break space U+00A0.
  The others (U+1680, U+2000 to U+200A, U+2028, U+2029, U+202F, U+205F, U+3000, U+FEFF)
  lie above 255 and are no \<open>char\<close>.\<close>

definition js_whitespace :: "char \<Rightarrow> bool" where
  "js_whitespace c =
     (c = CHR 0x09 \<or> c = CHR 0x0A \<or> c = CHR 0x0B \<or> c = CHR 0x0C \<or> c = CHR 0x0D \<or> c = CHR '' '' \<or>
      c = CHR 0xA0)"

definition trim :: "string \<Rightarrow> string" where
  "trim s = rev (dropWhile js_whitespace (rev (dropWhile js_whitespace s)))"

text \<open>\<^verbatim>\<open>s.split(",")\<close>: the pieces between the separators; the empty string gives one
  empty piece.\<close>

fun split :: "char \<Rightarrow> string \<Rightarrow> string list" where
  "split sep [] = [[]]"
| "split sep (c # cs) =
     (if c = sep then [] # split sep cs
      else (case split sep cs of
              [] \<Rightarrow> [[c]]
            | piece # pieces \<Rightarrow> (c # piece) # pieces))"

subsection \<open>\<^verbatim>\<open>parseInt(string)\<close> with no radix\<close>

text \<open>
  ECMA-262, \<^verbatim>\<open>parseInt\<close>: leading white space is dropped, one sign is read, a
  \<^verbatim>\<open>0x\<close>/\<^verbatim>\<open>0X\<close> prefix selects radix 16 (else 10), the longest run of digits of the
  radix is the number and whatever follows is ignored; no digit at all is \<^verbatim>\<open>NaN\<close>
  (\<open>None\<close>). An unset variable is \<^verbatim>\<open>undefined\<close>, which \<^verbatim>\<open>parseInt\<close> reads as the string
  \<^verbatim>\<open>"undefined"\<close>. The result \<open>Some n\<close> is the double nearest to the integer \<open>n\<close> that
  the digits denote (see the start of this section): \<^verbatim>\<open>Infinity\<close> for a run of more than
  308 digits.
\<close>

definition digitOf :: "char \<Rightarrow> nat option" where
  "digitOf c =
     (let n = (of_char c :: nat) in
      if 48 \<le> n \<and> n \<le> 57 then Some (n - 48)
      else if 97 \<le> n \<and> n \<le> 122 then Some (n - 87)
      else if 65 \<le> n \<and> n \<le> 90 then Some (n - 55)
      else None)"

definition radixDigit :: "nat \<Rightarrow> char \<Rightarrow> bool" where
  "radixDigit R c = (case digitOf c of None \<Rightarrow> False | Some d \<Rightarrow> d < R)"

definition digitsValue :: "nat \<Rightarrow> string \<Rightarrow> nat" where
  "digitsValue R Z = foldl (\<lambda>acc c. acc * R + (case digitOf c of None \<Rightarrow> 0 | Some d \<Rightarrow> d)) 0 Z"

fun stripSign :: "string \<Rightarrow> int \<times> string" where
  "stripSign [] = (1, [])"
| "stripSign (c # cs) =
     (if c = CHR ''-'' then (- 1, cs)
      else if c = CHR ''+'' then (1, cs)
      else (1, c # cs))"

definition stripPrefix :: "string \<Rightarrow> nat \<times> string" where
  "stripPrefix S =
     (if take 2 S = ''0x'' \<or> take 2 S = ''0X'' then (16, drop 2 S) else (10, S))"

definition parseInt_string :: "string \<Rightarrow> int option" where
  "parseInt_string inputString =
     (let (sign, S) = stripSign (dropWhile js_whitespace inputString);
          (R, S') = stripPrefix S;
          Z = takeWhile (radixDigit R) S'
      in if Z = [] then None else Some (sign * int (digitsValue R Z)))"

definition parseInt :: "string option \<Rightarrow> int option" where
  "parseInt v = parseInt_string (case v of None \<Rightarrow> ''undefined'' | Some s \<Rightarrow> s)"

text \<open>\<^verbatim>\<open>parseInt(x) || d\<close>: \<^verbatim>\<open>NaN\<close> and \<open>0\<close> (also \<open>-0\<close>) are falsy.\<close>

definition or_default :: "int option \<Rightarrow> int \<Rightarrow> int" where
  "or_default n d = (case n of None \<Rightarrow> d | Some v \<Rightarrow> if v = 0 then d else v)"

subsection \<open>Numbers that may be \<^verbatim>\<open>NaN\<close>\<close>

text \<open>
  The result of a floating-point operation: \<open>Nearest x\<close> is the double nearest to the
  real number \<open>x\<close> (ties to even), which is what IEEE 754 prescribes for an operation
  whose exact result is \<open>x\<close>. Two reals may have the same nearest double: \<open>Nearest x\<close>
  names it by the exact result.
\<close>

datatype js_number = NaN | PosInfinity | NegInfinity | Nearest real

text \<open>\<^verbatim>\<open>a / n\<close> for an integer \<open>a\<close> and a length \<open>n\<close>: the correctly rounded quotient, with
  the special values of IEEE division by zero.\<close>

definition js_div :: "int \<Rightarrow> nat \<Rightarrow> js_number" where
  "js_div a n =
     (if n = 0 then (if a = 0 then NaN else if 0 < a then PosInfinity else NegInfinity)
      else Nearest (real_of_int a / real n))"

subsection \<open>Numbers in template literals\<close>

text \<open>\<^verbatim>\<open>`${n}`\<close> for a natural number \<open>n\<close> below \<open>10 ^ 21\<close>: its decimal digits.\<close>

definition digit_char :: "nat \<Rightarrow> char" where
  "digit_char d = ''0123456789'' ! d"

fun decimal :: "nat \<Rightarrow> string" where
  "decimal n = (if n < 10 then [digit_char n] else decimal (n div 10) @ [digit_char (n mod 10)])"

subsection \<open>\<^verbatim>\<open>new URL(url)\<close>\<close>

text \<open>
  The URL class is Node's, not the repository's: it is a parameter of every definition
  that calls it. \<open>Inl message\<close> is the \<^verbatim>\<open>TypeError\<close> it throws.
\<close>

record parsed_url =
  protocol :: string
  hostname :: string
  port :: string
  pathname :: string
  search :: string

type_synonym url_parser = "string \<Rightarrow> string + parsed_url"

section \<open>Configuration\<close>

definition default_urls :: "string list" where
  "default_urls = [''https://www.example1.com'', ''https://www.example2.com'', ''https://www.example3.com'']"

text \<open>An empty string is falsy, so an empty \<^verbatim>\<open>WEBSITE_URLS\<close> selects the defaults too.\<close>

definition WEBSITE_URLS :: "environment \<Rightarrow> string list" where
  "WEBSITE_URLS env =
     (case env ''WEBSITE_URLS'' of
        None \<Rightarrow> default_urls
      | Some s \<Rightarrow> if s = [] then default_urls else map trim (split CHR '','' s))"

definition REQUEST_TIMEOUT_simple :: "environment \<Rightarrow> int" where
  "REQUEST_TIMEOUT_simple env = or_default (parseInt (env ''REQUEST_TIMEOUT'')) 30000"

definition PING_DELAY_simple :: "environment \<Rightarrow> int" where
  "PING_DELAY_simple env = or_default (parseInt (env ''PING_DELAY'')) 1000"

definition PING_DELAY_svc :: "environment \<Rightarrow> int" where
  "PING_DELAY_svc env = or_default (parseInt (env ''PING_DELAY'')) 1000"

definition REQUEST_TIMEOUT_svc :: "environment \<Rightarrow> int" where
  "REQUEST_TIMEOUT_svc env = or_default (parseInt (env ''REQUEST_TIMEOUT'')) 60000"

definition PRIVACY_MODE :: "environment \<Rightarrow> bool" where
  "PRIVACY_MODE env = (env ''PRIVACY_MODE'' = Some ''true'' \<or> False)"

text \<open>The guard of the pause after each request, \<^verbatim>\<open>if (PING_DELAY > 0)\<close>: the
  milliseconds slept, if any.\<close>

definition pause_after_request :: "int \<Rightarrow> int option" where
  "pause_after_request PING_DELAY = (if PING_DELAY > 0 then Some PING_DELAY else None)"

section \<open>Masking a URL (scheduled service)\<close>

definition maskedDomain :: "string \<Rightarrow> string" where
  "maskedDomain domain =
     (if length domain > 6
      then take 3 domain @ ''***'' @ drop (length domain - 3) domain
      else ''***'')"

definition maskUrl :: "url_parser \<Rightarrow> bool \<Rightarrow> string \<Rightarrow> string" where
  "maskUrl parse privacy url =
     (if \<not> privacy then url
      else (case parse url of
              Inr parsed \<Rightarrow> ''https://'' @ maskedDomain (hostname parsed) @ pathname parsed
            | Inl _ \<Rightarrow> ''https://***''))"

text \<open>
  The two places that call \<^verbatim>\<open>maskUrl\<close>: the text \<^verbatim>\<open>pingWebsite\<close> logs for its endpoint,
  and the lines \<^verbatim>\<open>main\<close> logs for the list of endpoints at start.
\<close>

definition displayUrl :: "url_parser \<Rightarrow> bool \<Rightarrow> string \<Rightarrow> nat \<Rightarrow> string" where
  "displayUrl parse privacy url index =
     (if privacy then ''Endpoint '' @ decimal (index + 1) else maskUrl parse privacy url)"

definition listing :: "url_parser \<Rightarrow> bool \<Rightarrow> string list \<Rightarrow> string list" where
  "listing parse privacy urls =
     (if privacy
      then [''   '' @ decimal (length urls) @ '' endpoints configured (URLs hidden for privacy)'']
      else map (\<lambda>(index, site). ''   '' @ decimal (index + 1) @ ''. '' @ maskUrl parse privacy site)
             (enumerate 0 urls))"

section \<open>Probing one endpoint\<close>

text \<open>
  The objects \<^verbatim>\<open>pingWebsite\<close> resolves or rejects with, and that the cycle pushes to
  \<^verbatim>\<open>results\<close>: a property an object literal does not set is \<open>None\<close>.
\<close>

record outcome =
  url :: string
  success :: "bool option"
  statusCode :: "int option"
  responseTime :: int
  size_js :: "nat option"
  error :: "string option"

datatype promise = Pending | Fulfilled outcome | Rejected outcome

text \<open>A promise settles once: \<^verbatim>\<open>resolve\<close> and \<^verbatim>\<open>reject\<close> on a settled promise do nothing.\<close>

definition resolve :: "outcome \<Rightarrow> promise \<Rightarrow> promise" where
  "resolve v p = (case p of Pending \<Rightarrow> Fulfilled v | _ \<Rightarrow> p)"

definition reject :: "outcome \<Rightarrow> promise \<Rightarrow> promise" where
  "reject e p = (case p of Pending \<Rightarrow> Rejected e | _ \<Rightarrow> p)"

text \<open>
  What Node emits on one request, in order, each with the value of \<^verbatim>\<open>Date.now()\<close> when
  its handler runs: the response (status line and headers), chunks of the body, the end
  of the body, the socket's idle timeout, an error.
\<close>

datatype event = Response int | Data string | End | Timeout | Error string

type_synonym timed_event = "int \<times> event"

record request_options =
  opt_hostname :: string
  opt_port :: string
  opt_path :: string
  opt_timeout :: int

definition options_of :: "parsed_url \<Rightarrow> int \<Rightarrow> request_options" where
  "options_of parsedUrl REQUEST_TIMEOUT =
     \<lparr>opt_hostname = hostname parsedUrl,
      opt_port = (if port parsedUrl \<noteq> [] then port parsedUrl
                  else if protocol parsedUrl = ''https:'' then ''443'' else ''80''),
      opt_path = pathname parsedUrl @ search parsedUrl,
      opt_timeout = REQUEST_TIMEOUT\<rparr>"

text \<open>
  The world one call of \<^verbatim>\<open>pingWebsite\<close> runs in: the clock at its start, the clock in
  the \<^verbatim>\<open>catch\<close> block, the message of the \<^verbatim>\<open>RangeError\<close> Node throws for a timeout it
  refuses, and what the transport (\<open>True\<close>: the \<^verbatim>\<open>https\<close> module, \<open>False\<close>: \<^verbatim>\<open>http\<close>)
  does with the request: it throws (\<open>Inl\<close> the message), or the request is made and
  emits the events listed, after which nothing more happens on it.
\<close>

record probe_env =
  startTime :: int
  catchTime :: int
  rangeError :: "int \<Rightarrow> string"
  transport :: "bool \<Rightarrow> request_options \<Rightarrow> string + timed_event list"

text \<open>
  \<^verbatim>\<open>protocol.get(options, ...)\<close> followed by \<^verbatim>\<open>req.setTimeout(REQUEST_TIMEOUT)\<close>, all inside
  the \<^verbatim>\<open>try\<close>. Node checks \<^verbatim>\<open>options.timeout\<close> before anything else and throws a
  \<^verbatim>\<open>RangeError\<close> unless it is a non-negative finite number; the configuration keeps such
  a value (\<^verbatim>\<open>parseInt(...) || default\<close> replaces \<^verbatim>\<open>NaN\<close> and 0 only).
\<close>

definition timeout_out_of_range :: "int \<Rightarrow> bool" where
  "timeout_out_of_range msecs = (msecs < 0 \<or> msecs \<ge> 2 ^ 1024 - 2 ^ 970)"

definition request :: "probe_env \<Rightarrow> bool \<Rightarrow> request_options \<Rightarrow> string + timed_event list" where
  "request env tls options =
     (if timeout_out_of_range (opt_timeout options) then Inl (rangeError env (opt_timeout options))
      else transport env tls options)"

definition failure :: "string \<Rightarrow> string \<Rightarrow> int \<Rightarrow> outcome" where
  "failure u message elapsed =
     \<lparr>url = u, success = None, statusCode = None, responseTime = elapsed,
      size_js = None, error = Some message\<rparr>"

subsection \<open>\<^verbatim>\<open>simple-ping.js\<close>\<close>

text \<open>The request's handlers share the promise and, once the response callback has run,
  \<^verbatim>\<open>res.statusCode\<close> with \<^verbatim>\<open>responseTime\<close>, and the body read so far. The \<^verbatim>\<open>catch\<close> block
  takes whatever the \<^verbatim>\<open>try\<close> throws for an invalid URL: the error of \<^verbatim>\<open>new URL\<close> and
  that of \<^verbatim>\<open>get\<close> alike.\<close>

record handler_state =
  settled :: promise
  res :: "(int \<times> int) option"
  data :: string

definition on_end_simple :: "string \<Rightarrow> int \<Rightarrow> int \<Rightarrow> string \<Rightarrow> outcome" where
  "on_end_simple u status elapsed body =
     (if status \<ge> 200 \<and> status < 400
      then \<lparr>url = u, success = Some True, statusCode = Some status, responseTime = elapsed,
            size_js = Some (length body), error = None\<rparr>
      else \<lparr>url = u, success = Some False, statusCode = Some status, responseTime = elapsed,
            size_js = Some (length body), error = None\<rparr>)"

fun handle_simple :: "string \<Rightarrow> int \<Rightarrow> handler_state \<Rightarrow> timed_event \<Rightarrow> handler_state" where
  "handle_simple u start st (now, Response status) =
     (case res st of
        None \<Rightarrow> st\<lparr>res := Some (status, now - start), data := []\<rparr>
      | Some _ \<Rightarrow> st)"
| "handle_simple u start st (now, Data chunk) =
     (case res st of
        None \<Rightarrow> st
      | Some _ \<Rightarrow> st\<lparr>data := data st @ chunk\<rparr>)"
| "handle_simple u start st (now, End) =
     (case res st of
        None \<Rightarrow> st
      | Some (status, elapsed) \<Rightarrow>
          st\<lparr>settled := resolve (on_end_simple u status elapsed (data st)) (settled st)\<rparr>)"
| "handle_simple u start st (now, Timeout) =
     st\<lparr>settled := reject (failure u ''Request timeout'' (now - start)) (settled st)\<rparr>"
| "handle_simple u start st (now, Error message) =
     st\<lparr>settled := reject (failure u message (now - start)) (settled st)\<rparr>"

definition pingWebsite_simple :: "url_parser \<Rightarrow> int \<Rightarrow> probe_env \<Rightarrow> string \<Rightarrow> promise" where
  "pingWebsite_simple parse REQUEST_TIMEOUT env u =
     (case parse u of
        Inl message \<Rightarrow>
          Rejected (failure u (''Invalid URL: '' @ message) (catchTime env - startTime env))
      | Inr parsedUrl \<Rightarrow>
          (case request env (protocol parsedUrl = ''https:'') (options_of parsedUrl REQUEST_TIMEOUT) of
             Inl message \<Rightarrow>
               Rejected (failure u (''Invalid URL: '' @ message) (catchTime env - startTime env))
           | Inr events \<Rightarrow>
               settled (foldl (handle_simple u (startTime env))
                 \<lparr>settled = Pending, res = None, data = []\<rparr> events)))"

subsection \<open>Scheduled service\<close>

text \<open>The promise is resolved in the response callback itself; the handlers of the body
  are empty. The \<^verbatim>\<open>index\<close> of the endpoint only serves the text that is logged.\<close>

definition on_response_svc :: "string \<Rightarrow> int \<Rightarrow> int \<Rightarrow> outcome" where
  "on_response_svc u status elapsed =
     (if status \<ge> 200 \<and> status < 400
      then \<lparr>url = u, success = Some True, statusCode = Some status, responseTime = elapsed,
            size_js = None, error = None\<rparr>
      else \<lparr>url = u, success = Some False, statusCode = Some status, responseTime = elapsed,
            size_js = None, error = None\<rparr>)"

fun handle_svc :: "string \<Rightarrow> int \<Rightarrow> promise \<Rightarrow> timed_event \<Rightarrow> promise" where
  "handle_svc u start p (now, Response status) = resolve (on_response_svc u status (now - start)) p"
| "handle_svc u start p (now, Data chunk) = p"
| "handle_svc u start p (now, End) = p"
| "handle_svc u start p (now, Timeout) = reject (failure u ''Request timeout'' (now - start)) p"
| "handle_svc u start p (now, Error message) = reject (failure u message (now - start)) p"

definition pingWebsite_svc :: "url_parser \<Rightarrow> int \<Rightarrow> probe_env \<Rightarrow> string \<Rightarrow> nat \<Rightarrow> promise" where
  "pingWebsite_svc parse REQUEST_TIMEOUT env u index =
     (case parse u of
        Inl message \<Rightarrow> Rejected (failure u message (catchTime env - startTime env))
      | Inr parsedUrl \<Rightarrow>
          (case request env (protocol parsedUrl = ''https:'') (options_of parsedUrl REQUEST_TIMEOUT) of
             Inl message \<Rightarrow> Rejected (failure u message (catchTime env - startTime env))
           | Inr events \<Rightarrow> foldl (handle_svc u (startTime env)) Pending events))"

section \<open>The ping cycle\<close>

text \<open>
  \<open>envs i\<close> is the world of the \<open>i\<close>-th call of the cycle. \<^verbatim>\<open>await\<close> on a promise that is
  still pending when its request has emitted its last event never returns: the cycle is
  then \<open>None\<close>. The pause after a request (see \<open>pause_after_request\<close>) always ends and
  changes no value.
\<close>

definition truthy_success :: "outcome \<Rightarrow> bool" where
  "truthy_success r = (success r = Some True)"

record summary =
  successful :: nat
  failed :: nat
  total :: nat
  averageResponseTime :: js_number
  results :: "outcome list"

fun loop_simple ::
  "url_parser \<Rightarrow> int \<Rightarrow> (nat \<Rightarrow> probe_env) \<Rightarrow> nat \<Rightarrow> string list \<Rightarrow> outcome list \<Rightarrow> int \<Rightarrow>
   (outcome list \<times> int) option" where
  "loop_simple parse T envs i [] rs totalTime = Some (rs, totalTime)"
| "loop_simple parse T envs i (website # rest) rs totalTime =
     (case pingWebsite_simple parse T (envs i) website of
        Pending \<Rightarrow> None
      | Fulfilled result \<Rightarrow>
          loop_simple parse T envs (Suc i) rest (rs @ [result]) (totalTime + responseTime result)
      | Rejected err \<Rightarrow>
          loop_simple parse T envs (Suc i) rest (rs @ [err])
            (if responseTime err \<noteq> 0 then totalTime + responseTime err else totalTime))"

definition pingAllWebsites_simple ::
  "url_parser \<Rightarrow> int \<Rightarrow> (nat \<Rightarrow> probe_env) \<Rightarrow> string list \<Rightarrow> summary option" where
  "pingAllWebsites_simple parse T envs urls =
     (case loop_simple parse T envs 0 urls [] 0 of
        None \<Rightarrow> None
      | Some (rs, totalTime) \<Rightarrow>
          (let successful = length (filter truthy_success rs);
               failed = length rs - successful;
               avgResponseTime = js_div totalTime (length rs)
           in Some \<lparr>successful = successful, failed = failed, total = length rs,
                     averageResponseTime = avgResponseTime, results = rs\<rparr>))"

fun loop_svc ::
  "url_parser \<Rightarrow> int \<Rightarrow> (nat \<Rightarrow> probe_env) \<Rightarrow> nat \<Rightarrow> string list \<Rightarrow> outcome list \<Rightarrow>
   outcome list option" where
  "loop_svc parse T envs i [] rs = Some rs"
| "loop_svc parse T envs i (website # rest) rs =
     (case pingWebsite_svc parse T (envs i) website i of
        Pending \<Rightarrow> None
      | Fulfilled result \<Rightarrow> loop_svc parse T envs (Suc i) rest (rs @ [result])
      | Rejected err \<Rightarrow> loop_svc parse T envs (Suc i) rest (rs @ [err]))"

definition pingAllWebsites_svc ::
  "url_parser \<Rightarrow> int \<Rightarrow> (nat \<Rightarrow> probe_env) \<Rightarrow> string list \<Rightarrow> outcome list option" where
  "pingAllWebsites_svc parse T envs urls = loop_svc parse T envs 0 urls []"

section \<open>Validation and the two entry points\<close>

definition parses :: "url_parser \<Rightarrow> string \<Rightarrow> bool" where
  "parses parse u = (case parse u of Inl _ \<Rightarrow> False | Inr _ \<Rightarrow> True)"

text \<open>
  \<^verbatim>\<open>main\<close> of \<^verbatim>\<open>simple-ping.js\<close>: the exit code of the process. \<^verbatim>\<open>process.exit\<close> ends the
  process where it is called. When the cycle never returns, nothing is left for the event
  loop to wait for (the request has emitted its last event, and the pause is not
  reached): Node then ends the process with code 0.
\<close>

definition validUrls_simple :: "url_parser \<Rightarrow> string list \<Rightarrow> string list" where
  "validUrls_simple parse urls = filter (parses parse) urls"

definition main_simple ::
  "url_parser \<Rightarrow> int \<Rightarrow> (nat \<Rightarrow> probe_env) \<Rightarrow> string list \<Rightarrow> int" where
  "main_simple parse T envs urls =
     (if length (validUrls_simple parse urls) = 0 then 1
      else (case pingAllWebsites_simple parse T envs urls of
              None \<Rightarrow> 0
            | Some summary \<Rightarrow> if failed summary > 0 then 1 else 0))"

text \<open>The service: \<^verbatim>\<open>validateWebsites\<close> returns the valid URLs; \<^verbatim>\<open>createCronJob\<close> exits
  with 1 when there is none, and else returns the job, here the function run at each
  tick.\<close>

definition validateWebsites :: "url_parser \<Rightarrow> string list \<Rightarrow> string list" where
  "validateWebsites parse urls = filter (parses parse) urls"

definition createCronJob ::
  "url_parser \<Rightarrow> int \<Rightarrow> string list \<Rightarrow> int + ((nat \<Rightarrow> probe_env) \<Rightarrow> outcome list option)" where
  "createCronJob parse T urls =
     (if length (validateWebsites parse urls) = 0 then Inl 1
      else Inr (\<lambda>envs. pingAllWebsites_svc parse T envs urls))"

section \<open>Notions used to state the properties\<close>

text \<open>The value the cycle pushes to \<^verbatim>\<open>results\<close> for a promise: what it resolved or
  rejected with.\<close>

definition settled_value :: "promise \<Rightarrow> outcome option" where
  "settled_value p =
     (case p of Pending \<Rightarrow> None | Fulfilled result \<Rightarrow> Some result | Rejected err \<Rightarrow> Some err)"

text \<open>The two kinds of object literal in \<^verbatim>\<open>pingWebsite\<close>, as predicates.\<close>

definition response_shaped :: "string \<Rightarrow> outcome \<Rightarrow> bool" where
  "response_shaped u r =
     (url r = u \<and> error r = None \<and>
      (case statusCode r of None \<Rightarrow> False | Some c \<Rightarrow> success r = Some (200 \<le> c \<and> c < 400)))"

definition failure_shaped :: "string \<Rightarrow> outcome \<Rightarrow> bool" where
  "failure_shaped u r = (url r = u \<and> statusCode r = None \<and> success r = None \<and> error r \<noteq> None)"

definition promise_shaped :: "string \<Rightarrow> promise \<Rightarrow> bool" where
  "promise_shaped u p =
     (case p of Pending \<Rightarrow> True | Fulfilled r \<Rightarrow> response_shaped u r | Rejected e \<Rightarrow> failure_shaped u e)"

text \<open>
  A string that is an integer numeral: optional white space around an optional sign and
  one or more decimal digits. A reading of ``numeric'' that admits more (fractions,
  exponents, hexadecimal) makes no difference where the predicate is used.
\<close>

definition decimal_digit :: "char \<Rightarrow> bool" where
  "decimal_digit c = (48 \<le> (of_char c :: nat) \<and> (of_char c :: nat) \<le> 57)"

definition numeric_string :: "string \<Rightarrow> bool" where
  "numeric_string s =
     (case stripSign (trim s) of (sign, digits) \<Rightarrow> digits \<noteq> [] \<and> list_all decimal_digit digits)"

subsection \<open>Sample inputs\<close>

text \<open>
  What \<^verbatim>\<open>new URL\<close> returns on four URLs; on a string that is no URL at all, such as
  \<^verbatim>\<open>"not a url"\<close>, it throws a \<^verbatim>\<open>TypeError\<close> with the message \<^verbatim>\<open>Invalid URL\<close>. The
  function is applied to these five strings only.
\<close>

definition sampleURL :: url_parser where
  "sampleURL u =
     (if u = ''https://example.com''
      then Inr \<lparr>protocol = ''https:'', hostname = ''example.com'', port = [],
                pathname = ''/'', search = []\<rparr>
      else if u = ''https://api.example.com/example/health''
      then Inr \<lparr>protocol = ''https:'', hostname = ''api.example.com'', port = [],
                pathname = ''/example/health'', search = []\<rparr>
      else if u = ''https://api.internal.com/example/health''
      then Inr \<lparr>protocol = ''https:'', hostname = ''api.internal.com'', port = [],
                pathname = ''/example/health'', search = []\<rparr>
      else if u = ''http://t.co/health''
      then Inr \<lparr>protocol = ''http:'', hostname = ''t.co'', port = [],
                pathname = ''/health'', search = []\<rparr>
      else Inl ''Invalid URL'')"

text \<open>The message of Node's \<^verbatim>\<open>ERR_OUT_OF_RANGE\<close> for the option \<^verbatim>\<open>timeout\<close>, for a value
  below \<open>2 ^ 32\<close> in magnitude (Node groups the digits of a larger one).\<close>

definition sample_rangeError :: "int \<Rightarrow> string" where
  "sample_rangeError msecs =
     ''The value of '' @ [CHR 0x22] @ ''timeout'' @ [CHR 0x22] @
     '' is out of range. It must be a non-negative finite number. Received '' @
     (if msecs < 0 then ''-'' @ decimal (nat (- msecs)) else decimal (nat msecs))"

text \<open>A call that starts at clock 1000 (1001 in the \<^verbatim>\<open>catch\<close> block) and whose request,
  once made, sees the given events and no other.\<close>

definition sample_env :: "timed_event list \<Rightarrow> probe_env" where
  "sample_env evs =
     \<lparr>startTime = 1000, catchTime = 1001, rangeError = sample_rangeError,
      transport = (\<lambda>tls opts. Inr evs)\<rparr>"

text \<open>The worlds of a cycle's calls: the first request is answered 200 with a body of
  two characters, the second 404, every later one times out.\<close>

definition sample_envs :: "nat \<Rightarrow> probe_env" where
  "sample_envs i =
     (if i = 0 then sample_env [(1120, Response 200), (1121, Data ''ok''), (1122, End)]
      else if i = 1 then sample_env [(1150, Response 404), (1151, End)]
      else sample_env [(31000, Timeout)])"

text \<open>A cycle whose first server sends the status line and the headers of a 200 and then
  closes the connection; the second request is answered 404.\<close>

definition dropped_envs :: "nat \<Rightarrow> probe_env" where
  "dropped_envs i =
     (if i = 0 then sample_env [(1120, Response 200)]
      else sample_env [(1150, Response 404), (1151, End)])"

subsection \<open>Shapes of an event trace\<close>

text \<open>
  Events that change nothing while no response has arrived (in the service: ever): a
  chunk or the end of a body has no handler that settles the promise there.
\<close>

fun no_effect :: "timed_event \<Rightarrow> bool" where
  "no_effect (t, Data chunk) = True"
| "no_effect (t, End) = True"
| "no_effect (t, Response status) = False"
| "no_effect (t, Timeout) = False"
| "no_effect (t, Error message) = False"

text \<open>Events that leave the promise of \<^verbatim>\<open>simple-ping.js\<close> pending once the response has
  arrived: chunks of the body. A second response event, which Node does not emit, would
  find the callback gone (it is registered with \<^verbatim>\<open>once\<close>).\<close>

fun in_body :: "timed_event \<Rightarrow> bool" where
  "in_body (t, Data chunk) = True"
| "in_body (t, Response status) = True"
| "in_body (t, End) = False"
| "in_body (t, Timeout) = False"
| "in_body (t, Error message) = False"

text \<open>The events whose handlers reject, and the \<^verbatim>\<open>error\<close> text they reject with.\<close>

fun failing :: "event \<Rightarrow> bool" where
  "failing Timeout = True"
| "failing (Error message) = True"
| "failing (Response status) = False"
| "failing (Data chunk) = False"
| "failing End = False"

fun failure_message :: "event \<Rightarrow> string" where
  "failure_message (Error message) = message"
| "failure_message ev = ''Request timeout''"

text \<open>The state of the handlers of \<^verbatim>\<open>simple-ping.js\<close> when the request is made.\<close>

definition initial :: handler_state where
  "initial = \<lparr>settled = Pending, res = None, data = []\<rparr>"

text \<open>The chunks of a body, put together.\<close>

fun chunk_of :: "timed_event \<Rightarrow> string" where
  "chunk_of (t, Data chunk) = chunk"
| "chunk_of (t, ev) = []"

definition chunks_of :: "timed_event list \<Rightarrow> string" where
  "chunks_of body = concat (map chunk_of body)"

text \<open>
  Whether the events of a request bring it to an end the handlers know. In the service:
  a response, a timeout or an error occurs. In \<^verbatim>\<open>simple-ping.js\<close>: a timeout or an error
  occurs before any response, or a response is followed by the end of its body, a
  timeout or an error.
\<close>

definition request_ends_svc :: "timed_event list \<Rightarrow> bool" where
  "request_ends_svc events = (\<not> list_all no_effect events)"

definition request_ends_simple :: "timed_event list \<Rightarrow> bool" where
  "request_ends_simple events =
     (case dropWhile no_effect events of
        [] \<Rightarrow> False
      | (now, Response status) # body \<Rightarrow> \<not> list_all in_body body
      | (now, ev) # rest \<Rightarrow> True)"

text \<open>Whether a probe has an end: the URL does not parse, or the request cannot be made,
  or the request made ends.\<close>

definition probe_ends_svc :: "url_parser \<Rightarrow> int \<Rightarrow> probe_env \<Rightarrow> string \<Rightarrow> bool" where
  "probe_ends_svc parse T env u =
     (case parse u of
        Inl message \<Rightarrow> True
      | Inr parsedUrl \<Rightarrow>
          (case request env (protocol parsedUrl = ''https:'') (options_of parsedUrl T) of
             Inl message \<Rightarrow> True
           | Inr events \<Rightarrow> request_ends_svc events))"

definition probe_ends_simple :: "url_parser \<Rightarrow> int \<Rightarrow> probe_env \<Rightarrow> string \<Rightarrow> bool" where
  "probe_ends_simple parse T env u =
     (case parse u of
        Inl message \<Rightarrow> True
      | Inr parsedUrl \<Rightarrow>
          (case request env (protocol parsedUrl = ''https:'') (options_of parsedUrl T) of
             Inl message \<Rightarrow> True
           | Inr events \<Rightarrow> request_ends_simple events))"

section \<open>A promise settles once\<close>

lemma resolve_settled: "p \<noteq> Pending \<Longrightarrow> resolve v p = p"
  by (cases p) (simp_all add: resolve_def)

lemma reject_settled: "p \<noteq> Pending \<Longrightarrow> reject e p = p"
  by (cases p) (simp_all add: reject_def)

lemma handle_svc_settled:
  assumes "p \<noteq> Pending"
  shows "handle_svc u start p te = p"
proof (cases te)
  case (Pair now ev)
  with assms show ?thesis
    by (cases ev) (simp_all add: resolve_settled reject_settled)
qed

lemma foldl_svc_settled: "p \<noteq> Pending \<Longrightarrow> foldl (handle_svc u start) p evs = p"
  by (induction evs) (simp_all add: handle_svc_settled)

lemma handle_simple_settled:
  assumes "settled st \<noteq> Pending"
  shows "settled (handle_simple u start st te) = settled st"
proof (cases te)
  case (Pair now ev)
  with assms show ?thesis
    by (cases ev) (simp_all add: resolve_settled reject_settled split: option.splits)
qed

lemma foldl_simple_settled:
  "settled st \<noteq> Pending \<Longrightarrow> settled (foldl (handle_simple u start) st evs) = settled st"
proof (induction evs arbitrary: st)
  case Nil
  then show ?case by simp
next
  case (Cons te evs)
  then show ?case by (simp add: handle_simple_settled)
qed

section \<open>The shape of every outcome\<close>

lemma failure_shaped_failure: "failure_shaped u (failure u message elapsed)"
  by (simp add: failure_shaped_def failure_def)

lemma response_shaped_svc: "response_shaped u (on_response_svc u status elapsed)"
  by (simp add: response_shaped_def on_response_svc_def)

lemma response_shaped_simple: "response_shaped u (on_end_simple u status elapsed body)"
  by (simp add: response_shaped_def on_end_simple_def)

lemma promise_shaped_resolve:
  "promise_shaped u p \<Longrightarrow> response_shaped u v \<Longrightarrow> promise_shaped u (resolve v p)"
  by (cases p) (simp_all add: promise_shaped_def resolve_def)

lemma promise_shaped_reject:
  "promise_shaped u p \<Longrightarrow> failure_shaped u e \<Longrightarrow> promise_shaped u (reject e p)"
  by (cases p) (simp_all add: promise_shaped_def reject_def)

lemma handle_svc_shaped:
  assumes "promise_shaped u p"
  shows "promise_shaped u (handle_svc u start p te)"
proof (cases te)
  case (Pair now ev)
  with assms show ?thesis
    by (cases ev)
      (simp_all add: promise_shaped_resolve promise_shaped_reject response_shaped_svc
        failure_shaped_failure)
qed

lemma foldl_svc_shaped:
  "promise_shaped u p \<Longrightarrow> promise_shaped u (foldl (handle_svc u start) p evs)"
  by (induction evs arbitrary: p) (simp_all add: handle_svc_shaped)

lemma pingWebsite_svc_shaped: "promise_shaped u (pingWebsite_svc parse T env u i)"
proof (cases "parse u")
  case (Inl message)
  then show ?thesis
    by (simp add: pingWebsite_svc_def promise_shaped_def failure_shaped_failure)
next
  case (Inr parsedUrl)
  show ?thesis
  proof (cases "request env (protocol parsedUrl = ''https:'') (options_of parsedUrl T)")
    case (Inl message)
    with Inr show ?thesis
      by (simp add: pingWebsite_svc_def promise_shaped_def failure_shaped_failure)
  next
    case made: (Inr events)
    have "promise_shaped u Pending" by (simp add: promise_shaped_def)
    with Inr made show ?thesis
      by (simp add: pingWebsite_svc_def foldl_svc_shaped)
  qed
qed

lemma handle_simple_shaped:
  assumes "promise_shaped u (settled st)"
  shows "promise_shaped u (settled (handle_simple u start st te))"
proof (cases te)
  case (Pair now ev)
  with assms show ?thesis
    by (cases ev)
      (auto simp: promise_shaped_resolve promise_shaped_reject response_shaped_simple
        failure_shaped_failure split: option.splits)
qed

lemma foldl_simple_shaped:
  "promise_shaped u (settled st) \<Longrightarrow> promise_shaped u (settled (foldl (handle_simple u start) st evs))"
  by (induction evs arbitrary: st) (simp_all add: handle_simple_shaped)

lemma pingWebsite_simple_shaped: "promise_shaped u (pingWebsite_simple parse T env u)"
proof (cases "parse u")
  case (Inl message)
  then show ?thesis
    by (simp add: pingWebsite_simple_def promise_shaped_def failure_shaped_failure)
next
  case (Inr parsedUrl)
  show ?thesis
  proof (cases "request env (protocol parsedUrl = ''https:'') (options_of parsedUrl T)")
    case (Inl message)
    with Inr show ?thesis
      by (simp add: pingWebsite_simple_def promise_shaped_def failure_shaped_failure)
  next
    case made: (Inr events)
    have "promise_shaped u (settled \<lparr>settled = Pending, res = None, data = []\<rparr>)"
      by (simp add: promise_shaped_def)
    with Inr made show ?thesis
      by (simp add: pingWebsite_simple_def foldl_simple_shaped)
  qed
qed

lemma shaped_settled_value:
  assumes "promise_shaped u p" and "settled_value p = Some r"
  shows "url r = u \<and> (error r \<noteq> None \<longleftrightarrow> statusCode r = None) \<and>
         (\<forall>c. statusCode r = Some c \<longrightarrow> error r = None \<and> success r = Some (200 \<le> c \<and> c < 400)) \<and>
         (statusCode r = None \<longrightarrow> success r = None)"
  using assms
  by (cases p)
    (auto simp: promise_shaped_def settled_value_def response_shaped_def failure_shaped_def
      split: option.splits)

text \<open>
  C6. Every outcome of a probe, in either program, carries exactly one of
  \<^verbatim>\<open>statusCode\<close> and \<^verbatim>\<open>error\<close> (the failure reason): \<^verbatim>\<open>error\<close> is present if and only
  if the outcome has no status code, and an outcome with a status code, also one
  classified \<^verbatim>\<open>success: false\<close>, has no \<^verbatim>\<open>error\<close>.
\<close>

theorem outcome_status_xor_error:
  assumes "settled_value (pingWebsite_simple parse T env u) = Some r \<or>
           settled_value (pingWebsite_svc parse T env u i) = Some r"
  shows "(error r \<noteq> None \<longleftrightarrow> statusCode r = None) \<and>
         (\<forall>c. statusCode r = Some c \<longrightarrow> error r = None \<and> success r = Some (200 \<le> c \<and> c < 400))"
  using assms shaped_settled_value [OF pingWebsite_simple_shaped]
    shaped_settled_value [OF pingWebsite_svc_shaped]
  by blast

text \<open>C6 at two outcomes: a response with an unacceptable status, and a timeout.\<close>

theorem outcome_status_xor_error_witness:
  "settled_value (pingWebsite_svc sampleURL 60000 (sample_envs 1) ''https://example.com'' 1) =
     Some \<lparr>url = ''https://example.com'', success = Some False, statusCode = Some 404,
           responseTime = 150, size_js = None, error = None\<rparr> \<and>
   (error \<lparr>url = ''https://example.com'', success = Some False, statusCode = Some 404,
           responseTime = 150, size_js = None, error = None\<rparr> \<noteq> None \<longleftrightarrow>
    statusCode \<lparr>url = ''https://example.com'', success = Some False, statusCode = Some 404,
           responseTime = 150, size_js = None, error = None\<rparr> = None) \<and>
   settled_value (pingWebsite_simple sampleURL 30000 (sample_envs 2) ''https://example.com'') =
     Some (failure ''https://example.com'' ''Request timeout'' 30000) \<and>
   (error (failure ''https://example.com'' ''Request timeout'' 30000) \<noteq> None \<longleftrightarrow>
    statusCode (failure ''https://example.com'' ''Request timeout'' 30000) = None)"
proof -
  have svc: "settled_value (pingWebsite_svc sampleURL 60000 (sample_envs 1) ''https://example.com'' 1) =
     Some \<lparr>url = ''https://example.com'', success = Some False, statusCode = Some 404,
           responseTime = 150, size_js = None, error = None\<rparr>"
    by (simp add: settled_value_def pingWebsite_svc_def sampleURL_def sample_envs_def
        sample_env_def resolve_def on_response_svc_def request_def timeout_out_of_range_def
        options_of_def)
  have simple: "settled_value (pingWebsite_simple sampleURL 30000 (sample_envs 2) ''https://example.com'') =
     Some (failure ''https://example.com'' ''Request timeout'' 30000)"
    by (simp add: settled_value_def pingWebsite_simple_def sampleURL_def sample_envs_def
        sample_env_def reject_def request_def timeout_out_of_range_def options_of_def)
  from outcome_status_xor_error [where parse = sampleURL and T = 30000 and env = "sample_envs 2"
      and u = "''https://example.com''"
      and r = "failure ''https://example.com'' ''Request timeout'' 30000"] simple
    outcome_status_xor_error [where parse = sampleURL and T = 60000 and env = "sample_envs 1"
      and u = "''https://example.com''" and i = 1
      and r = "\<lparr>url = ''https://example.com'', success = Some False, statusCode = Some 404,
           responseTime = 150, size_js = None, error = None\<rparr>"] svc
  show ?thesis by blast
qed

section \<open>Masking\<close>

text \<open>What \<^verbatim>\<open>maskUrl\<close> returns on each of its branches.\<close>

lemma maskUrl_branches:
  "maskUrl parse False u = u \<and>
   (parse u = Inr p \<and> length (hostname p) > 6 \<longrightarrow>
      maskUrl parse True u =
        ''https://'' @ take 3 (hostname p) @ ''***'' @ drop (length (hostname p) - 3) (hostname p) @ pathname p) \<and>
   (parse u = Inr p \<and> length (hostname p) \<le> 6 \<longrightarrow>
      maskUrl parse True u = ''https://***'' @ pathname p) \<and>
   (parse u = Inl message \<longrightarrow> maskUrl parse True u = ''https://***'')"
  by (simp add: maskUrl_def maskedDomain_def)

text \<open>
  C5. The claim describes a partial privacy mode in which a URL is shown as
  \<^verbatim>\<open>https://\<close>, the first 3 characters of its host, \<^verbatim>\<open>***\<close>, the last 3 and the path. The
  service has one switch, \<^verbatim>\<open>PRIVACY_MODE\<close>, and both places that display a URL test it
  before they call \<^verbatim>\<open>maskUrl\<close>: with the switch on, a probe is shown as \<^verbatim>\<open>Endpoint\<close> and its
  number and the list of endpoints as their count; with the switch off \<^verbatim>\<open>maskUrl\<close>
  returns the URL as it is. The masking branch of \<^verbatim>\<open>maskUrl\<close> is never reached: no
  configuration makes the service display a partially masked URL.
\<close>

theorem privacy_mode_never_masks:
  "displayUrl parse True u i = ''Endpoint '' @ decimal (i + 1) \<and>
   displayUrl parse False u i = u \<and>
   listing parse True urls =
     [''   '' @ decimal (length urls) @ '' endpoints configured (URLs hidden for privacy)''] \<and>
   listing parse False urls =
     map (\<lambda>(index, site). ''   '' @ decimal (index + 1) @ ''. '' @ site) (enumerate 0 urls) \<and>
   PRIVACY_MODE [''PRIVACY_MODE'' \<mapsto> ''true''] = True \<and>
   displayUrl sampleURL (PRIVACY_MODE [''PRIVACY_MODE'' \<mapsto> ''true''])
     ''https://api.example.com/example/health'' 0 = ''Endpoint 1'' \<and>
   listing sampleURL (PRIVACY_MODE [''PRIVACY_MODE'' \<mapsto> ''true''])
     [''https://api.example.com/example/health''] =
     [''   1 endpoints configured (URLs hidden for privacy)''] \<and>
   PRIVACY_MODE Map.empty = False \<and>
   displayUrl sampleURL (PRIVACY_MODE Map.empty) ''https://api.example.com/example/health'' 0 =
     ''https://api.example.com/example/health'' \<and>
   listing sampleURL (PRIVACY_MODE Map.empty) [''https://api.example.com/example/health''] =
     [''   1. https://api.example.com/example/health''] \<and>
   maskUrl sampleURL True ''https://api.example.com/example/health'' =
     ''https://api***com/example/health''"
  by (simp add: displayUrl_def listing_def maskUrl_def maskedDomain_def PRIVACY_MODE_def
      sampleURL_def digit_char_def)



section \<open>Configuration: the falsy fallback\<close>

lemma or_default_nonzero: "d \<noteq> 0 \<Longrightarrow> or_default n d \<noteq> 0"
  by (simp add: or_default_def split: option.splits)

lemma or_default_falsy: "n = None \<or> n = Some 0 \<Longrightarrow> or_default n d = d"
  by (auto simp: or_default_def)

text \<open>
  C9, as amended. A timeout or delay whose environment variable is \<^verbatim>\<open>0\<close>, or any
  string from which \<^verbatim>\<open>parseInt\<close> reads no integer (\<^verbatim>\<open>NaN\<close>), or is unset, is replaced by
  the default (timeout 30000 in \<^verbatim>\<open>simple-ping.js\<close> and 60000 in the service, delay
  1000); none of the four constants is ever 0, so a delay of zero cannot be configured.
\<close>

theorem falsy_fallback:
  "(parseInt (env ''PING_DELAY'') = None \<or> parseInt (env ''PING_DELAY'') = Some 0 \<longrightarrow>
      PING_DELAY_simple env = 1000 \<and> PING_DELAY_svc env = 1000) \<and>
   (parseInt (env ''REQUEST_TIMEOUT'') = None \<or> parseInt (env ''REQUEST_TIMEOUT'') = Some 0 \<longrightarrow>
      REQUEST_TIMEOUT_simple env = 30000 \<and> REQUEST_TIMEOUT_svc env = 60000) \<and>
   (env ''PING_DELAY'' = Some ''0'' \<longrightarrow> PING_DELAY_simple env = 1000 \<and> PING_DELAY_svc env = 1000) \<and>
   (env ''REQUEST_TIMEOUT'' = Some ''0'' \<longrightarrow>
      REQUEST_TIMEOUT_simple env = 30000 \<and> REQUEST_TIMEOUT_svc env = 60000) \<and>
   PING_DELAY_simple env \<noteq> 0 \<and> PING_DELAY_svc env \<noteq> 0 \<and>
   REQUEST_TIMEOUT_simple env \<noteq> 0 \<and> REQUEST_TIMEOUT_svc env \<noteq> 0"
proof -
  have zero: "parseInt (Some ''0'') = Some 0"
    by (simp add: parseInt_def parseInt_string_def js_whitespace_def stripPrefix_def
        radixDigit_def digitOf_def digitsValue_def)
  show ?thesis
    unfolding PING_DELAY_simple_def PING_DELAY_svc_def REQUEST_TIMEOUT_simple_def
      REQUEST_TIMEOUT_svc_def
    by (auto simp: zero or_default_falsy or_default_nonzero)
qed

theorem falsy_fallback_witness:
  "PING_DELAY_simple [''PING_DELAY'' \<mapsto> ''0''] = 1000 \<and>
   PING_DELAY_svc [''PING_DELAY'' \<mapsto> ''abc''] = 1000 \<and>
   REQUEST_TIMEOUT_simple [''REQUEST_TIMEOUT'' \<mapsto> ''0''] = 30000 \<and>
   REQUEST_TIMEOUT_svc Map.empty = 60000 \<and>
   parseInt (Some ''abc'') = None \<and> parseInt None = None"
proof -
  have abc: "parseInt (Some ''abc'') = None" and undefined: "parseInt None = None"
    by (simp_all add: parseInt_def parseInt_string_def js_whitespace_def stripPrefix_def
        radixDigit_def digitOf_def)
  from falsy_fallback [of "[''PING_DELAY'' \<mapsto> ''0'']"]
    falsy_fallback [of "[''PING_DELAY'' \<mapsto> ''abc'']"]
    falsy_fallback [of "[''REQUEST_TIMEOUT'' \<mapsto> ''0'']"]
    falsy_fallback [of Map.empty] abc undefined
  show ?thesis by simp
qed

text \<open>The claim as first stated fails for a string that is not a number and starts with
  digits: \<^verbatim>\<open>parseInt\<close> reads the digits, and the value is kept.\<close>

theorem leading_digits_counterexample:
  "\<not> numeric_string ''12px'' \<and>
   PING_DELAY_simple [''PING_DELAY'' \<mapsto> ''12px''] = 12 \<and>
   PING_DELAY_simple [''PING_DELAY'' \<mapsto> ''12px''] \<noteq> 1000 \<and>
   PING_DELAY_svc [''PING_DELAY'' \<mapsto> ''12px''] = 12 \<and>
   REQUEST_TIMEOUT_simple [''REQUEST_TIMEOUT'' \<mapsto> ''12px''] = 12 \<and>
   REQUEST_TIMEOUT_svc [''REQUEST_TIMEOUT'' \<mapsto> ''12px''] = 12"
  by (simp add: numeric_string_def trim_def decimal_digit_def PING_DELAY_simple_def
      PING_DELAY_svc_def REQUEST_TIMEOUT_simple_def REQUEST_TIMEOUT_svc_def or_default_def
      parseInt_def parseInt_string_def js_whitespace_def stripPrefix_def radixDigit_def
      digitOf_def digitsValue_def)

text \<open>A negative delay is kept as well; the guard of the pause then skips it.\<close>

lemma negative_delay_skips_pause:
  "PING_DELAY_simple [''PING_DELAY'' \<mapsto> ''-1''] = - 1 \<and>
   pause_after_request (PING_DELAY_simple [''PING_DELAY'' \<mapsto> ''-1'']) = None"
  by (simp add: pause_after_request_def PING_DELAY_simple_def or_default_def
      parseInt_def parseInt_string_def js_whitespace_def stripPrefix_def radixDigit_def
      digitOf_def digitsValue_def)

section \<open>Traces of events\<close>

text \<open>A list either satisfies a predicate throughout or has a first element that does
  not.\<close>

lemma first_exception:
  "list_all P xs \<or> (\<exists>pre x rest. xs = pre @ x # rest \<and> list_all P pre \<and> \<not> P x)"
proof (induction xs)
  case Nil
  then show ?case by simp
next
  case (Cons y ys)
  show ?case
  proof (cases "P y")
    case False
    then have "y # ys = [] @ y # ys \<and> list_all P [] \<and> \<not> P y" by simp
    then show ?thesis by blast
  next
    case True
    from Cons show ?thesis
    proof
      assume "list_all P ys"
      with True show ?thesis by simp
    next
      assume "\<exists>pre x rest. ys = pre @ x # rest \<and> list_all P pre \<and> \<not> P x"
      then obtain pre x rest where "ys = pre @ x # rest" "list_all P pre" "\<not> P x" by blast
      with True have "y # ys = (y # pre) @ x # rest \<and> list_all P (y # pre) \<and> \<not> P x" by simp
      then show ?thesis by blast
    qed
  qed
qed

text \<open>The service: the first event with an effect decides.\<close>

lemma foldl_svc_no_effect:
  "list_all no_effect pre \<Longrightarrow> foldl (handle_svc u start) p pre = p"
proof (induction pre arbitrary: p)
  case Nil
  then show ?case by simp
next
  case (Cons te pre)
  obtain t ev where te: "te = (t, ev)" by (cases te)
  with Cons.prems have "handle_svc u start p te = p" by (cases ev) simp_all
  with Cons show ?case by simp
qed

lemma svc_first_effect:
  assumes "list_all no_effect pre"
  shows "foldl (handle_svc u start) Pending (pre @ (now, Response c) # rest) =
           Fulfilled (on_response_svc u c (now - start))"
    and "failing ev \<Longrightarrow> foldl (handle_svc u start) Pending (pre @ (now, ev) # rest) =
           Rejected (failure u (failure_message ev) (now - start))"
proof -
  show "foldl (handle_svc u start) Pending (pre @ (now, Response c) # rest) =
           Fulfilled (on_response_svc u c (now - start))"
    using assms by (simp add: foldl_svc_no_effect resolve_def foldl_svc_settled)
  show "foldl (handle_svc u start) Pending (pre @ (now, ev) # rest) =
           Rejected (failure u (failure_message ev) (now - start))" if "failing ev"
    using assms that by (cases ev) (simp_all add: foldl_svc_no_effect reject_def foldl_svc_settled)
qed

lemma svc_trace_cases:
  obtains (idle) "list_all no_effect trace" "foldl (handle_svc u start) Pending trace = Pending"
  | (answered) pre now c rest where "trace = pre @ (now, Response c) # rest" "list_all no_effect pre"
      "foldl (handle_svc u start) Pending trace = Fulfilled (on_response_svc u c (now - start))"
  | (failed) pre now ev rest where "trace = pre @ (now, ev) # rest" "list_all no_effect pre" "failing ev"
      "foldl (handle_svc u start) Pending trace = Rejected (failure u (failure_message ev) (now - start))"
proof -
  from first_exception [of no_effect trace] show ?thesis
  proof
    assume quiet: "list_all no_effect trace"
    then have "foldl (handle_svc u start) Pending trace = Pending"
      by (rule foldl_svc_no_effect)
    with quiet show ?thesis by (rule idle)
  next
    assume "\<exists>pre x rest. trace = pre @ x # rest \<and> list_all no_effect pre \<and> \<not> no_effect x"
    then obtain pre x rest where split: "trace = pre @ x # rest" "list_all no_effect pre" "\<not> no_effect x"
      by blast
    obtain now ev where x: "x = (now, ev)" by (cases x)
    from split(3) x consider (response) c where "ev = Response c" | (fails) "failing ev"
      by (cases ev) simp_all
    then show ?thesis
    proof cases
      case response
      with split(1) x have shape: "trace = pre @ (now, Response c) # rest" by simp
      then have "foldl (handle_svc u start) Pending trace = Fulfilled (on_response_svc u c (now - start))"
        using split(2) by (simp only: svc_first_effect)
      with shape split(2) show ?thesis by (rule answered)
    next
      case fails
      from split(1) x have shape: "trace = pre @ (now, ev) # rest" by simp
      then have "foldl (handle_svc u start) Pending trace =
          Rejected (failure u (failure_message ev) (now - start))"
        using split(2) fails by (simp only: svc_first_effect)
      with shape split(2) fails show ?thesis by (rule failed)
    qed
  qed
qed

lemma svc_resolves_iff:
  "(\<exists>r. foldl (handle_svc u start) Pending trace = Fulfilled r) \<longleftrightarrow>
   (\<exists>pre now c rest. trace = pre @ (now, Response c) # rest \<and> list_all no_effect pre)"
proof
  assume "\<exists>r. foldl (handle_svc u start) Pending trace = Fulfilled r"
  then show "\<exists>pre now c rest. trace = pre @ (now, Response c) # rest \<and> list_all no_effect pre"
    by (cases rule: svc_trace_cases [of trace u start]) auto
next
  assume "\<exists>pre now c rest. trace = pre @ (now, Response c) # rest \<and> list_all no_effect pre"
  then obtain pre now c rest where "trace = pre @ (now, Response c) # rest" "list_all no_effect pre"
    by blast
  then have "foldl (handle_svc u start) Pending trace = Fulfilled (on_response_svc u c (now - start))"
    by (simp only: svc_first_effect)
  then show "\<exists>r. foldl (handle_svc u start) Pending trace = Fulfilled r" ..
qed

lemma svc_rejects_iff:
  "(\<exists>e. foldl (handle_svc u start) Pending trace = Rejected e) \<longleftrightarrow>
   (\<exists>pre now ev rest. trace = pre @ (now, ev) # rest \<and> list_all no_effect pre \<and> failing ev)"
proof
  assume "\<exists>e. foldl (handle_svc u start) Pending trace = Rejected e"
  then show "\<exists>pre now ev rest. trace = pre @ (now, ev) # rest \<and> list_all no_effect pre \<and> failing ev"
    by (cases rule: svc_trace_cases [of trace u start]) auto
next
  assume "\<exists>pre now ev rest. trace = pre @ (now, ev) # rest \<and> list_all no_effect pre \<and> failing ev"
  then obtain pre now ev rest where
    "trace = pre @ (now, ev) # rest" "list_all no_effect pre" "failing ev"
    by blast
  then have "foldl (handle_svc u start) Pending trace =
      Rejected (failure u (failure_message ev) (now - start))"
    by (simp only: svc_first_effect)
  then show "\<exists>e. foldl (handle_svc u start) Pending trace = Rejected e" ..
qed

text \<open>\<^verbatim>\<open>simple-ping.js\<close>: events before the response, the body, and what ends it.\<close>

lemma foldl_simple_no_effect:
  "res st = None \<Longrightarrow> list_all no_effect pre \<Longrightarrow> foldl (handle_simple u start) st pre = st"
proof (induction pre arbitrary: st)
  case Nil
  then show ?case by simp
next
  case (Cons te pre)
  obtain t ev where te: "te = (t, ev)" by (cases te)
  with Cons.prems have "handle_simple u start st te = st" by (cases ev) simp_all
  with Cons show ?case by simp
qed

lemma foldl_simple_in_body:
  "res st = Some x \<Longrightarrow> list_all in_body body \<Longrightarrow>
   foldl (handle_simple u start) st body = st\<lparr>data := data st @ chunks_of body\<rparr>"
proof (induction body arbitrary: st)
  case Nil
  then show ?case by (simp add: chunks_of_def)
next
  case (Cons te body)
  obtain t ev where te: "te = (t, ev)" by (cases te)
  from Cons.prems te
  have step: "handle_simple u start st te = st\<lparr>data := data st @ chunk_of te\<rparr>"
    by (cases ev) simp_all
  then have "res (handle_simple u start st te) = Some x"
    using Cons.prems(1) by simp
  from Cons.IH [OF this] Cons.prems(2) step show ?case
    by (simp add: chunks_of_def)
qed

lemma simple_fails_first:
  assumes "list_all no_effect pre" and "failing ev"
  shows "settled (foldl (handle_simple u start) initial (pre @ (now, ev) # rest)) =
           Rejected (failure u (failure_message ev) (now - start))"
proof -
  have "foldl (handle_simple u start) initial pre = initial"
    using assms(1) by (simp add: foldl_simple_no_effect initial_def)
  moreover from assms(2)
  have "settled (handle_simple u start initial (now, ev)) =
          Rejected (failure u (failure_message ev) (now - start))"
    by (cases ev) (simp_all add: initial_def reject_def)
  ultimately show ?thesis
    by (simp add: foldl_simple_settled)
qed

lemma simple_after_response:
  assumes "list_all no_effect pre" and "list_all in_body body"
  shows "foldl (handle_simple u start) initial (pre @ (now, Response c) # body) =
           \<lparr>settled = Pending, res = Some (c, now - start), data = chunks_of body\<rparr>"
proof -
  have "foldl (handle_simple u start) initial pre = initial"
    using assms(1) by (simp add: foldl_simple_no_effect initial_def)
  moreover have "handle_simple u start initial (now, Response c) =
      \<lparr>settled = Pending, res = Some (c, now - start), data = []\<rparr>"
    by (simp add: initial_def)
  moreover have "foldl (handle_simple u start)
      \<lparr>settled = Pending, res = Some (c, now - start), data = []\<rparr> body =
      \<lparr>settled = Pending, res = Some (c, now - start), data = []\<rparr>
        \<lparr>data := data \<lparr>settled = Pending, res = Some (c, now - start), data = []\<rparr> @ chunks_of body\<rparr>"
    using assms(2) by (intro foldl_simple_in_body) simp_all
  ultimately show ?thesis by simp
qed

lemma simple_body_ends:
  assumes "list_all no_effect pre" and "list_all in_body body"
  shows "settled (foldl (handle_simple u start) initial
           (pre @ (now, Response c) # body @ (t, End) # rest)) =
         Fulfilled (on_end_simple u c (now - start) (chunks_of body))"
proof -
  have "foldl (handle_simple u start) initial (pre @ (now, Response c) # body @ (t, End) # rest) =
      foldl (handle_simple u start)
        (handle_simple u start (foldl (handle_simple u start) initial (pre @ (now, Response c) # body))
           (t, End)) rest"
    by simp
  then show ?thesis
    by (simp only: simple_after_response [OF assms])
      (simp add: resolve_def foldl_simple_settled)
qed

lemma simple_body_fails:
  assumes "list_all no_effect pre" and "list_all in_body body" and "failing ev"
  shows "settled (foldl (handle_simple u start) initial
           (pre @ (now, Response c) # body @ (t, ev) # rest)) =
         Rejected (failure u (failure_message ev) (t - start))"
proof -
  have "foldl (handle_simple u start) initial (pre @ (now, Response c) # body @ (t, ev) # rest) =
      foldl (handle_simple u start)
        (handle_simple u start (foldl (handle_simple u start) initial (pre @ (now, Response c) # body))
           (t, ev)) rest"
    by simp
  moreover from assms(3)
  have "settled (handle_simple u start
      \<lparr>settled = Pending, res = Some (c, now - start), data = chunks_of body\<rparr> (t, ev)) =
      Rejected (failure u (failure_message ev) (t - start))"
    by (cases ev) (simp_all add: reject_def)
  ultimately show ?thesis
    by (simp only: simple_after_response [OF assms(1,2)]) (simp add: foldl_simple_settled)
qed

lemma simple_trace_cases:
  obtains (idle) "list_all no_effect trace"
      "settled (foldl (handle_simple u start) initial trace) = Pending"
  | (open_body) pre now c body where
      "trace = pre @ (now, Response c) # body" "list_all no_effect pre" "list_all in_body body"
      "settled (foldl (handle_simple u start) initial trace) = Pending"
  | (ended) pre now c body t rest where
      "trace = pre @ (now, Response c) # body @ (t, End) # rest"
      "list_all no_effect pre" "list_all in_body body"
      "settled (foldl (handle_simple u start) initial trace) =
         Fulfilled (on_end_simple u c (now - start) (chunks_of body))"
  | (failed_first) pre now ev rest where
      "trace = pre @ (now, ev) # rest" "list_all no_effect pre" "failing ev"
      "settled (foldl (handle_simple u start) initial trace) =
         Rejected (failure u (failure_message ev) (now - start))"
  | (failed_in_body) pre now c body t ev rest where
      "trace = pre @ (now, Response c) # body @ (t, ev) # rest"
      "list_all no_effect pre" "list_all in_body body" "failing ev"
      "settled (foldl (handle_simple u start) initial trace) =
         Rejected (failure u (failure_message ev) (t - start))"
proof -
  from first_exception [of no_effect trace] show ?thesis
  proof
    assume quiet: "list_all no_effect trace"
    then have "foldl (handle_simple u start) initial trace = initial"
      by (simp add: foldl_simple_no_effect initial_def)
    then have "settled (foldl (handle_simple u start) initial trace) = Pending"
      by (simp add: initial_def)
    with quiet show ?thesis by (rule idle)
  next
    assume "\<exists>pre x rest. trace = pre @ x # rest \<and> list_all no_effect pre \<and> \<not> no_effect x"
    then obtain pre x after where split: "trace = pre @ x # after" "list_all no_effect pre" "\<not> no_effect x"
      by blast
    obtain now ev where x: "x = (now, ev)" by (cases x)
    from split(3) x consider (response) c where "ev = Response c" | (fails) "failing ev"
      by (cases ev) simp_all
    then show ?thesis
    proof cases
      case fails
      from split(1) x have shape: "trace = pre @ (now, ev) # after" by simp
      then have "settled (foldl (handle_simple u start) initial trace) =
          Rejected (failure u (failure_message ev) (now - start))"
        using split(2) fails by (simp only: simple_fails_first)
      with shape split(2) fails show ?thesis by (rule failed_first)
    next
      case response
      from first_exception [of in_body after] show ?thesis
      proof
        assume body: "list_all in_body after"
        from split(1) x response have shape: "trace = pre @ (now, Response c) # after" by simp
        then have "settled (foldl (handle_simple u start) initial trace) = Pending"
          by (simp only: simple_after_response [OF split(2) body]) simp
        with shape split(2) body show ?thesis by (rule open_body)
      next
        assume "\<exists>pre x rest. after = pre @ x # rest \<and> list_all in_body pre \<and> \<not> in_body x"
        then obtain body y rest where
          inner: "after = body @ y # rest" "list_all in_body body" "\<not> in_body y"
          by blast
        obtain t ev' where y: "y = (t, ev')" by (cases y)
        from inner(3) y consider (ends) "ev' = End" | (fails) "failing ev'"
          by (cases ev') simp_all
        then show ?thesis
        proof cases
          case ends
          with split(1) x response inner(1) y
          have shape: "trace = pre @ (now, Response c) # body @ (t, End) # rest" by simp
          then have "settled (foldl (handle_simple u start) initial trace) =
              Fulfilled (on_end_simple u c (now - start) (chunks_of body))"
            by (simp only: simple_body_ends [OF split(2) inner(2)])
          with shape split(2) inner(2) show ?thesis by (rule ended)
        next
          case fails
          from split(1) x response inner(1) y
          have shape: "trace = pre @ (now, Response c) # body @ (t, ev') # rest" by simp
          then have "settled (foldl (handle_simple u start) initial trace) =
              Rejected (failure u (failure_message ev') (t - start))"
            by (simp only: simple_body_fails [OF split(2) inner(2) fails])
          with shape split(2) inner(2) fails show ?thesis by (rule failed_in_body)
        qed
      qed
    qed
  qed
qed

lemma simple_resolves_iff:
  "(\<exists>r. settled (foldl (handle_simple u start) initial trace) = Fulfilled r) \<longleftrightarrow>
   (\<exists>pre now c body t rest. trace = pre @ (now, Response c) # body @ (t, End) # rest \<and>
      list_all no_effect pre \<and> list_all in_body body)"
proof
  assume fulfilled: "\<exists>r. settled (foldl (handle_simple u start) initial trace) = Fulfilled r"
  show "\<exists>pre now c body t rest. trace = pre @ (now, Response c) # body @ (t, End) # rest \<and>
      list_all no_effect pre \<and> list_all in_body body"
  proof (cases rule: simple_trace_cases [of trace u start])
    case idle
    with fulfilled show ?thesis by simp
  next
    case (open_body pre now c body)
    with fulfilled show ?thesis by simp
  next
    case (ended pre now c body t rest)
    then show ?thesis by blast
  next
    case (failed_first pre now ev rest)
    with fulfilled show ?thesis by simp
  next
    case (failed_in_body pre now c body t ev rest)
    with fulfilled show ?thesis by simp
  qed
next
  assume "\<exists>pre now c body t rest. trace = pre @ (now, Response c) # body @ (t, End) # rest \<and>
      list_all no_effect pre \<and> list_all in_body body"
  then obtain pre now c body t rest where
    "trace = pre @ (now, Response c) # body @ (t, End) # rest"
    "list_all no_effect pre" "list_all in_body body"
    by blast
  then have "settled (foldl (handle_simple u start) initial trace) =
      Fulfilled (on_end_simple u c (now - start) (chunks_of body))"
    by (simp only: simple_body_ends)
  then show "\<exists>r. settled (foldl (handle_simple u start) initial trace) = Fulfilled r" ..
qed

lemma simple_rejects_iff:
  "(\<exists>e. settled (foldl (handle_simple u start) initial trace) = Rejected e) \<longleftrightarrow>
   (\<exists>pre now ev rest. trace = pre @ (now, ev) # rest \<and> list_all no_effect pre \<and> failing ev) \<or>
   (\<exists>pre now c body t ev rest. trace = pre @ (now, Response c) # body @ (t, ev) # rest \<and>
      list_all no_effect pre \<and> list_all in_body body \<and> failing ev)"
proof
  assume rejected: "\<exists>e. settled (foldl (handle_simple u start) initial trace) = Rejected e"
  show "(\<exists>pre now ev rest. trace = pre @ (now, ev) # rest \<and> list_all no_effect pre \<and> failing ev) \<or>
   (\<exists>pre now c body t ev rest. trace = pre @ (now, Response c) # body @ (t, ev) # rest \<and>
      list_all no_effect pre \<and> list_all in_body body \<and> failing ev)"
  proof (cases rule: simple_trace_cases [of trace u start])
    case idle
    with rejected show ?thesis by simp
  next
    case (open_body pre now c body)
    with rejected show ?thesis by simp
  next
    case (ended pre now c body t rest)
    with rejected show ?thesis by simp
  next
    case (failed_first pre now ev rest)
    then show ?thesis by blast
  next
    case (failed_in_body pre now c body t ev rest)
    then show ?thesis by blast
  qed
next
  assume "(\<exists>pre now ev rest. trace = pre @ (now, ev) # rest \<and> list_all no_effect pre \<and> failing ev) \<or>
   (\<exists>pre now c body t ev rest. trace = pre @ (now, Response c) # body @ (t, ev) # rest \<and>
      list_all no_effect pre \<and> list_all in_body body \<and> failing ev)"
  then show "\<exists>e. settled (foldl (handle_simple u start) initial trace) = Rejected e"
  proof
    assume "\<exists>pre now ev rest. trace = pre @ (now, ev) # rest \<and> list_all no_effect pre \<and> failing ev"
    then obtain pre now ev rest where
      "trace = pre @ (now, ev) # rest" "list_all no_effect pre" "failing ev"
      by blast
    then have "settled (foldl (handle_simple u start) initial trace) =
        Rejected (failure u (failure_message ev) (now - start))"
      by (simp only: simple_fails_first)
    then show ?thesis ..
  next
    assume "\<exists>pre now c body t ev rest. trace = pre @ (now, Response c) # body @ (t, ev) # rest \<and>
      list_all no_effect pre \<and> list_all in_body body \<and> failing ev"
    then obtain pre now c body t ev rest where
      "trace = pre @ (now, Response c) # body @ (t, ev) # rest"
      "list_all no_effect pre" "list_all in_body body" "failing ev"
      by blast
    then have "settled (foldl (handle_simple u start) initial trace) =
        Rejected (failure u (failure_message ev) (t - start))"
      by (simp only: simple_body_fails)
    then show ?thesis ..
  qed
qed

text \<open>A probe stays pending exactly when its request does not end.\<close>

lemma first_effect_dropWhile:
  assumes "list_all P pre" and "\<not> P x"
  shows "dropWhile P (pre @ x # rest) = x # rest"
  using assms by (induction pre) simp_all

lemma svc_settles_iff:
  "foldl (handle_svc u start) Pending trace \<noteq> Pending \<longleftrightarrow> request_ends_svc trace"
proof (cases rule: svc_trace_cases [of trace u start])
  case idle
  then show ?thesis by (simp add: request_ends_svc_def)
next
  case (answered pre now c rest)
  then show ?thesis by (simp add: request_ends_svc_def)
next
  case (failed pre now ev rest)
  then show ?thesis by (cases ev) (simp_all add: request_ends_svc_def)
qed

lemma simple_settles_iff:
  "settled (foldl (handle_simple u start) initial trace) \<noteq> Pending \<longleftrightarrow> request_ends_simple trace"
proof (cases rule: simple_trace_cases [of trace u start])
  case idle
  then have first: "dropWhile no_effect trace = []"
    by (simp add: list_all_iff)
  from idle(2) show ?thesis by (simp add: request_ends_simple_def first)
next
  case (open_body pre now c body)
  then have first: "dropWhile no_effect trace = (now, Response c) # body"
    by (simp add: first_effect_dropWhile)
  from open_body(3,4) show ?thesis by (simp add: request_ends_simple_def first)
next
  case (ended pre now c body t rest)
  then have first: "dropWhile no_effect trace = (now, Response c) # body @ (t, End) # rest"
    by (simp add: first_effect_dropWhile)
  from ended(4) show ?thesis by (simp add: request_ends_simple_def first)
next
  case (failed_first pre now ev rest)
  then have first: "dropWhile no_effect trace = (now, ev) # rest"
    by (cases ev) (simp_all add: first_effect_dropWhile)
  from failed_first(3,4) show ?thesis
    by (cases ev) (simp_all add: request_ends_simple_def first)
next
  case (failed_in_body pre now c body t ev rest)
  then have first: "dropWhile no_effect trace = (now, Response c) # body @ (t, ev) # rest"
    by (simp add: first_effect_dropWhile)
  from failed_in_body(4) have "\<not> in_body (t, ev)" by (cases ev) simp_all
  with failed_in_body(5) show ?thesis by (simp add: request_ends_simple_def first)
qed

lemma probe_svc_settles_iff:
  "pingWebsite_svc parse T env u i \<noteq> Pending \<longleftrightarrow> probe_ends_svc parse T env u"
  by (simp add: pingWebsite_svc_def probe_ends_svc_def svc_settles_iff split: sum.splits)

lemma probe_simple_settles_iff:
  "pingWebsite_simple parse T env u \<noteq> Pending \<longleftrightarrow> probe_ends_simple parse T env u"
  using simple_settles_iff [of u "startTime env"]
  by (simp add: pingWebsite_simple_def probe_ends_simple_def initial_def split: sum.splits)

section \<open>Classification by status code\<close>

lemmas sample_defs = sampleURL_def sample_envs_def sample_env_def dropped_envs_def

lemmas probe_defs = pingWebsite_simple_def pingWebsite_svc_def request_def
  timeout_out_of_range_def resolve_def reject_def on_end_simple_def on_response_svc_def
  failure_def options_of_def

text \<open>
  C2, as amended. The service classifies every response that arrives before a timeout
  or an error, and \<^verbatim>\<open>simple-ping.js\<close> every response whose body ends before a timeout or an
  error: the outcome is a success if and only if the status code \<open>c\<close> satisfies
  \<open>200 \<le> c < 400\<close>, and it carries the status code, so that a code of 400 or more gives
  \<^verbatim>\<open>success: false\<close> with the code. In \<^verbatim>\<open>simple-ping.js\<close> a response whose body is cut off
  by a timeout or an error gives a failed outcome with the failure reason and without the
  status code. Whatever either promise resolves with is classified by the status code it
  carries.
\<close>

theorem status_classification:
  assumes "parse u = Inr p"
    and "request env (protocol p = ''https:'') (options_of p T) = Inr trace"
  shows "(trace = pre @ (now, Response c) # rest \<and> list_all no_effect pre \<longrightarrow>
            pingWebsite_svc parse T env u i =
              Fulfilled \<lparr>url = u, success = Some (200 \<le> c \<and> c < 400), statusCode = Some c,
                         responseTime = now - startTime env, size_js = None, error = None\<rparr>) \<and>
         (trace = pre @ (now, Response c) # body @ (t, End) # rest \<and>
          list_all no_effect pre \<and> list_all in_body body \<longrightarrow>
            pingWebsite_simple parse T env u =
              Fulfilled \<lparr>url = u, success = Some (200 \<le> c \<and> c < 400), statusCode = Some c,
                         responseTime = now - startTime env,
                         size_js = Some (length (chunks_of body)), error = None\<rparr>) \<and>
         (trace = pre @ (now, Response c) # body @ (t, ev) # rest \<and>
          list_all no_effect pre \<and> list_all in_body body \<and> failing ev \<longrightarrow>
            pingWebsite_simple parse T env u =
              Rejected \<lparr>url = u, success = None, statusCode = None,
                        responseTime = t - startTime env, size_js = None,
                        error = Some (failure_message ev)\<rparr>) \<and>
         (\<forall>r. pingWebsite_svc parse T env u i = Fulfilled r \<or> pingWebsite_simple parse T env u = Fulfilled r \<longrightarrow>
              (\<exists>status. statusCode r = Some status \<and> success r = Some (200 \<le> status \<and> status < 400)))"
proof (intro conjI impI allI)
  have svc: "pingWebsite_svc parse T env u i = foldl (handle_svc u (startTime env)) Pending trace"
    using assms by (simp add: pingWebsite_svc_def)
  assume "trace = pre @ (now, Response c) # rest \<and> list_all no_effect pre"
  then have "foldl (handle_svc u (startTime env)) Pending trace =
      Fulfilled (on_response_svc u c (now - startTime env))"
    by (simp only: svc_first_effect)
  then show "pingWebsite_svc parse T env u i =
      Fulfilled \<lparr>url = u, success = Some (200 \<le> c \<and> c < 400), statusCode = Some c,
                 responseTime = now - startTime env, size_js = None, error = None\<rparr>"
    by (simp add: svc on_response_svc_def)
next
  have simple: "pingWebsite_simple parse T env u =
      settled (foldl (handle_simple u (startTime env)) initial trace)"
    using assms by (simp add: pingWebsite_simple_def initial_def)
  assume "trace = pre @ (now, Response c) # body @ (t, End) # rest \<and>
    list_all no_effect pre \<and> list_all in_body body"
  then have "settled (foldl (handle_simple u (startTime env)) initial trace) =
      Fulfilled (on_end_simple u c (now - startTime env) (chunks_of body))"
    by (simp only: simple_body_ends)
  then show "pingWebsite_simple parse T env u =
      Fulfilled \<lparr>url = u, success = Some (200 \<le> c \<and> c < 400), statusCode = Some c,
                 responseTime = now - startTime env,
                 size_js = Some (length (chunks_of body)), error = None\<rparr>"
    by (simp add: simple on_end_simple_def)
next
  have simple: "pingWebsite_simple parse T env u =
      settled (foldl (handle_simple u (startTime env)) initial trace)"
    using assms by (simp add: pingWebsite_simple_def initial_def)
  assume "trace = pre @ (now, Response c) # body @ (t, ev) # rest \<and>
    list_all no_effect pre \<and> list_all in_body body \<and> failing ev"
  then have "settled (foldl (handle_simple u (startTime env)) initial trace) =
      Rejected (failure u (failure_message ev) (t - startTime env))"
    by (simp only: simple_body_fails)
  then show "pingWebsite_simple parse T env u =
      Rejected \<lparr>url = u, success = None, statusCode = None,
                responseTime = t - startTime env, size_js = None,
                error = Some (failure_message ev)\<rparr>"
    by (simp add: simple failure_def)
next
  fix r
  assume "pingWebsite_svc parse T env u i = Fulfilled r \<or> pingWebsite_simple parse T env u = Fulfilled r"
  then have "response_shaped u r"
    using pingWebsite_svc_shaped [of u parse T env i] pingWebsite_simple_shaped [of u parse T env]
    by (auto simp: promise_shaped_def)
  then show "\<exists>status. statusCode r = Some status \<and> success r = Some (200 \<le> status \<and> status < 400)"
    by (auto simp: response_shaped_def split: option.splits)
qed

theorem status_classification_witness:
  "pingWebsite_svc sampleURL 60000 (sample_envs 1) ''https://example.com'' 1 =
     Fulfilled \<lparr>url = ''https://example.com'', success = Some False, statusCode = Some 404,
                responseTime = 150, size_js = None, error = None\<rparr> \<and>
   pingWebsite_simple sampleURL 30000 (sample_envs 0) ''https://example.com'' =
     Fulfilled \<lparr>url = ''https://example.com'', success = Some True, statusCode = Some 200,
                responseTime = 120, size_js = Some 2, error = None\<rparr> \<and>
   pingWebsite_simple sampleURL 30000 (sample_env [(1120, Response 200), (31120, Error ''read ECONNRESET'')])
     ''https://example.com'' =
     Rejected \<lparr>url = ''https://example.com'', success = None, statusCode = None,
               responseTime = 30120, size_js = None, error = Some ''read ECONNRESET''\<rparr>"
proof -
  let ?p = "\<lparr>protocol = ''https:'', hostname = ''example.com'', port = [],
             pathname = ''/'', search = []\<rparr>"
  let ?cut = "[(1120, Response 200), (31120, Error ''read ECONNRESET'')]"
  have parsed: "sampleURL ''https://example.com'' = Inr ?p"
    by (simp add: sampleURL_def)
  have made1: "request (sample_envs 1) (protocol ?p = ''https:'') (options_of ?p 60000) =
      Inr [(1150, Response 404), (1151, End)]"
    and made0: "request (sample_envs 0) (protocol ?p = ''https:'') (options_of ?p 30000) =
      Inr [(1120, Response 200), (1121, Data ''ok''), (1122, End)]"
    and made2: "request (sample_env ?cut) (protocol ?p = ''https:'') (options_of ?p 30000) = Inr ?cut"
    by (simp_all add: sample_defs request_def timeout_out_of_range_def options_of_def)
  have shape1: "[(1150, Response 404), (1151, End)] = [] @ (1150, Response 404) # [(1151, End)] \<and>
      list_all no_effect []"
    and shape0: "[(1120, Response 200), (1121, Data ''ok''), (1122, End)] =
      [] @ (1120, Response 200) # [(1121, Data ''ok'')] @ (1122, End) # [] \<and>
      list_all no_effect [] \<and> list_all in_body [(1121, Data ''ok'')]"
    and shape2: "?cut = [] @ (1120, Response 200) # [] @ (31120, Error ''read ECONNRESET'') # [] \<and>
      list_all no_effect [] \<and> list_all in_body [] \<and> failing (Error ''read ECONNRESET'')"
    by simp_all
  note svc = mp [OF conjunct1 [OF status_classification [where parse = sampleURL
        and u = "''https://example.com''" and p = ?p and env = "sample_envs 1" and T = 60000
        and trace = "[(1150, Response 404), (1151, End)]"
        and pre = "[]" and now = 1150 and c = 404 and rest = "[(1151, End)]" and i = 1,
        OF parsed made1]] shape1]
  note ended = mp [OF conjunct1 [OF conjunct2 [OF status_classification [where parse = sampleURL
        and u = "''https://example.com''" and p = ?p and env = "sample_envs 0" and T = 30000
        and trace = "[(1120, Response 200), (1121, Data ''ok''), (1122, End)]"
        and pre = "[]" and now = 1120 and c = 200 and body = "[(1121, Data ''ok'')]"
        and t = 1122 and rest = "[]", OF parsed made0]]] shape0]
  note cut = mp [OF conjunct1 [OF conjunct2 [OF conjunct2 [OF status_classification [where
        parse = sampleURL and u = "''https://example.com''" and p = ?p
        and env = "sample_env ?cut" and T = 30000 and trace = ?cut
        and pre = "[]" and now = 1120 and c = 200 and body = "[]" and t = 31120
        and ev = "Error ''read ECONNRESET''" and rest = "[]", OF parsed made2]]]] shape2]
  from svc ended cut show ?thesis
    by (simp add: sample_defs chunks_of_def)
qed

text \<open>
  The claim as first stated fails in \<^verbatim>\<open>simple-ping.js\<close>: a response with status 404
  arrives, its body stalls until the socket's idle timeout, and the outcome is a failure
  that does not carry the status code.
\<close>

theorem status_lost_counterexample:
  "sampleURL ''https://example.com'' =
     Inr \<lparr>protocol = ''https:'', hostname = ''example.com'', port = [], pathname = ''/'', search = []\<rparr> \<and>
   request (sample_env [(1150, Response 404), (31150, Timeout)]) True
     (options_of \<lparr>protocol = ''https:'', hostname = ''example.com'', port = [],
                  pathname = ''/'', search = []\<rparr> 30000) =
     Inr [(1150, Response 404), (31150, Timeout)] \<and>
   pingWebsite_simple sampleURL 30000 (sample_env [(1150, Response 404), (31150, Timeout)])
     ''https://example.com'' =
     Rejected \<lparr>url = ''https://example.com'', success = None, statusCode = None,
               responseTime = 30150, size_js = None, error = Some ''Request timeout''\<rparr>"
  by (simp add: sample_defs probe_defs)

section \<open>The cycle\<close>

text \<open>The list of URLs built from the environment is never empty: a string that is not
  empty splits into at least one piece.\<close>

lemma split_not_Nil: "split sep s \<noteq> []"
  by (induction s) (simp_all split: list.splits)

lemma WEBSITE_URLS_not_Nil: "WEBSITE_URLS env \<noteq> []"
  by (simp add: WEBSITE_URLS_def default_urls_def split_not_Nil split: option.splits)

lemma filter_all_length: "length (filter P xs) < length xs \<longleftrightarrow> \<not> list_all P xs"
proof (induction xs)
  case Nil
  then show ?case by simp
next
  case (Cons x xs)
  show ?case
  proof (cases "P x")
    case True
    with Cons show ?thesis by simp
  next
    case False
    have "length (filter P xs) < Suc (length xs)"
      by (simp add: less_Suc_eq_le)
    with False show ?thesis by simp
  qed
qed

text \<open>The loops: what they push, in which order, and the time they add up.\<close>

text \<open>The loops: what they push, in which order, and the time they add up.\<close>

lemma loop_simple_results:
  assumes "loop_simple parse T envs i urls rs tt = Some (out, tt')"
  shows "\<exists>new. out = rs @ new \<and>
           map Some new = map (\<lambda>(j, u). settled_value (pingWebsite_simple parse T (envs j) u)) (enumerate i urls) \<and>
           tt' = tt + sum_list (map responseTime new)"
  using assms
proof (induction urls arbitrary: i rs tt)
  case Nil
  then show ?case by simp
next
  case (Cons website rest)
  show ?case
  proof (cases "pingWebsite_simple parse T (envs i) website")
    case Pending
    with Cons.prems show ?thesis by simp
  next
    case (Fulfilled result)
    with Cons.prems
    have "loop_simple parse T envs (Suc i) rest (rs @ [result]) (tt + responseTime result) = Some (out, tt')"
      by simp
    from Cons.IH [OF this] obtain new where
      "out = (rs @ [result]) @ new"
      "map Some new = map (\<lambda>(j, u). settled_value (pingWebsite_simple parse T (envs j) u)) (enumerate (Suc i) rest)"
      "tt' = tt + responseTime result + sum_list (map responseTime new)"
      by blast
    with Fulfilled show ?thesis
      by (intro exI [of _ "result # new"]) (simp add: settled_value_def)
  next
    case (Rejected err)
    with Cons.prems
    have "loop_simple parse T envs (Suc i) rest (rs @ [err]) (tt + responseTime err) = Some (out, tt')"
      by (simp split: if_splits)
    from Cons.IH [OF this] obtain new where
      "out = (rs @ [err]) @ new"
      "map Some new = map (\<lambda>(j, u). settled_value (pingWebsite_simple parse T (envs j) u)) (enumerate (Suc i) rest)"
      "tt' = tt + responseTime err + sum_list (map responseTime new)"
      by blast
    with Rejected show ?thesis
      by (intro exI [of _ "err # new"]) (simp add: settled_value_def)
  qed
qed

lemma loop_simple_returns:
  assumes "list_all (\<lambda>(j, u). pingWebsite_simple parse T (envs j) u \<noteq> Pending) (enumerate i urls)"
  shows "\<exists>out. loop_simple parse T envs i urls rs tt = Some out"
  using assms
proof (induction urls arbitrary: i rs tt)
  case Nil
  then show ?case by simp
next
  case (Cons website rest)
  then show ?case
    by (cases "pingWebsite_simple parse T (envs i) website") simp_all
qed

lemma loop_svc_results:
  assumes "loop_svc parse T envs i urls rs = Some out"
  shows "\<exists>new. out = rs @ new \<and>
           map Some new = map (\<lambda>(j, u). settled_value (pingWebsite_svc parse T (envs j) u j)) (enumerate i urls)"
  using assms
proof (induction urls arbitrary: i rs)
  case Nil
  then show ?case by simp
next
  case (Cons website rest)
  show ?case
  proof (cases "pingWebsite_svc parse T (envs i) website i")
    case Pending
    with Cons.prems show ?thesis by simp
  next
    case (Fulfilled result)
    with Cons.prems have "loop_svc parse T envs (Suc i) rest (rs @ [result]) = Some out"
      by simp
    from Cons.IH [OF this] obtain new where
      "out = (rs @ [result]) @ new"
      "map Some new = map (\<lambda>(j, u). settled_value (pingWebsite_svc parse T (envs j) u j)) (enumerate (Suc i) rest)"
      by blast
    with Fulfilled show ?thesis
      by (intro exI [of _ "result # new"]) (simp add: settled_value_def)
  next
    case (Rejected err)
    with Cons.prems have "loop_svc parse T envs (Suc i) rest (rs @ [err]) = Some out"
      by simp
    from Cons.IH [OF this] obtain new where
      "out = (rs @ [err]) @ new"
      "map Some new = map (\<lambda>(j, u). settled_value (pingWebsite_svc parse T (envs j) u j)) (enumerate (Suc i) rest)"
      by blast
    with Rejected show ?thesis
      by (intro exI [of _ "err # new"]) (simp add: settled_value_def)
  qed
qed

lemma loop_svc_returns:
  assumes "list_all (\<lambda>(j, u). pingWebsite_svc parse T (envs j) u j \<noteq> Pending) (enumerate i urls)"
  shows "\<exists>out. loop_svc parse T envs i urls rs = Some out"
  using assms
proof (induction urls arbitrary: i rs)
  case Nil
  then show ?case by simp
next
  case (Cons website rest)
  then show ?case
    by (cases "pingWebsite_svc parse T (envs i) website i") simp_all
qed

lemma urls_of_settled_values:
  assumes "map Some new = map (\<lambda>(j, u). settled_value (P j u)) (enumerate i urls)"
    and "\<And>j u. promise_shaped u (P j u)"
  shows "map url new = urls"
  using assms(1)
proof (induction urls arbitrary: new i)
  case Nil
  then show ?case by simp
next
  case (Cons website rest)
  from Cons.prems obtain r new' where new: "new = r # new'"
    by (cases new) auto
  with Cons.prems have head: "settled_value (P i website) = Some r"
    and tail: "map Some new' = map (\<lambda>(j, u). settled_value (P j u)) (enumerate (Suc i) rest)"
    by simp_all
  from shaped_settled_value [OF assms(2) head] have "url r = website" by simp
  with Cons.IH [OF tail] new show ?case by simp
qed

lemma pingAllWebsites_simple_results:
  assumes "pingAllWebsites_simple parse T envs urls = Some s"
  shows "map Some (results s) =
           map (\<lambda>(j, u). settled_value (pingWebsite_simple parse T (envs j) u)) (enumerate 0 urls) \<and>
         map url (results s) = urls \<and>
         total s = length urls \<and>
         successful s = length (filter truthy_success (results s)) \<and>
         failed s = length (results s) - successful s \<and>
         averageResponseTime s = js_div (sum_list (map responseTime (results s))) (length (results s))"
proof -
  from assms obtain rs totalTime where
    loop: "loop_simple parse T envs 0 urls [] 0 = Some (rs, totalTime)"
    and s: "s = \<lparr>successful = length (filter truthy_success rs),
                failed = length rs - length (filter truthy_success rs), total = length rs,
                averageResponseTime = js_div totalTime (length rs), results = rs\<rparr>"
    by (auto simp: pingAllWebsites_simple_def Let_def split: option.splits)
  from loop_simple_results [OF loop] have
    pushed: "map Some rs =
      map (\<lambda>(j, u). settled_value (pingWebsite_simple parse T (envs j) u)) (enumerate 0 urls)"
    and time: "totalTime = sum_list (map responseTime rs)"
    by auto
  from pushed have urls: "map url rs = urls"
    by (rule urls_of_settled_values) (rule pingWebsite_simple_shaped)
  then have "length rs = length urls"
    by (metis length_map)
  with s pushed time urls show ?thesis by simp
qed

lemma pingAllWebsites_simple_returns:
  assumes "list_all (\<lambda>(j, u). pingWebsite_simple parse T (envs j) u \<noteq> Pending) (enumerate 0 urls)"
  shows "\<exists>s. pingAllWebsites_simple parse T envs urls = Some s"
proof -
  from loop_simple_returns [OF assms] obtain out where
    "loop_simple parse T envs 0 urls [] 0 = Some out" by blast
  then show ?thesis
    by (cases out) (simp add: pingAllWebsites_simple_def Let_def)
qed

lemma pingAllWebsites_svc_results:
  assumes "pingAllWebsites_svc parse T envs urls = Some rs"
  shows "map Some rs =
           map (\<lambda>(j, u). settled_value (pingWebsite_svc parse T (envs j) u j)) (enumerate 0 urls) \<and>
         map url rs = urls"
proof -
  from assms loop_svc_results [of parse T envs 0 urls "[]" rs] have
    pushed: "map Some rs =
      map (\<lambda>(j, u). settled_value (pingWebsite_svc parse T (envs j) u j)) (enumerate 0 urls)"
    by (simp add: pingAllWebsites_svc_def)
  from pushed have "map url rs = urls"
    by (rule urls_of_settled_values) (rule pingWebsite_svc_shaped)
  with pushed show ?thesis by simp
qed

text \<open>The cycle returns when every probe has an end.\<close>

lemma cycle_simple_returns:
  assumes "list_all (\<lambda>(j, u). probe_ends_simple parse T (envs j) u) (enumerate 0 urls)"
  shows "\<exists>s. pingAllWebsites_simple parse T envs urls = Some s"
proof -
  from assms
  have "list_all (\<lambda>(j, u). pingWebsite_simple parse T (envs j) u \<noteq> Pending) (enumerate 0 urls)"
    by (simp add: probe_simple_settles_iff)
  then show ?thesis by (rule pingAllWebsites_simple_returns)
qed

lemma cycle_svc_returns:
  assumes "list_all (\<lambda>(j, u). probe_ends_svc parse T (envs j) u) (enumerate 0 urls)"
  shows "\<exists>rs. pingAllWebsites_svc parse T envs urls = Some rs"
proof -
  from assms
  have "list_all (\<lambda>(j, u). pingWebsite_svc parse T (envs j) u j \<noteq> Pending) (enumerate 0 urls)"
    by (simp add: probe_svc_settles_iff)
  from loop_svc_returns [OF this] show ?thesis
    by (simp add: pingAllWebsites_svc_def)
qed

text \<open>
  C3. On every run the outcome list is not empty, since the list of endpoints built
  from the configuration is not, and \<^verbatim>\<open>averageResponseTime\<close> is the arithmetic mean of
  \<^verbatim>\<open>responseTime\<close> over all outcomes of the cycle, failed or not (the double nearest to
  it): a number, never \<^verbatim>\<open>NaN\<close>. The cycle returns its report whenever every probe has an
  end.
\<close>

theorem average_is_mean:
  "(pingAllWebsites_simple parse T envs (WEBSITE_URLS env) = Some s \<longrightarrow>
      results s \<noteq> [] \<and> averageResponseTime s \<noteq> NaN \<and>
      averageResponseTime s =
        Nearest (real_of_int (sum_list (map responseTime (results s))) / real (length (results s)))) \<and>
   (list_all (\<lambda>(j, u). probe_ends_simple parse T (envs j) u) (enumerate 0 (WEBSITE_URLS env)) \<longrightarrow>
      (\<exists>s. pingAllWebsites_simple parse T envs (WEBSITE_URLS env) = Some s))"
proof (intro conjI impI)
  assume s: "pingAllWebsites_simple parse T envs (WEBSITE_URLS env) = Some s"
  note facts = pingAllWebsites_simple_results [OF s]
  from facts have "length (map url (results s)) = length (WEBSITE_URLS env)" by simp
  then show nonempty: "results s \<noteq> []"
    using WEBSITE_URLS_not_Nil [of env] by auto
  with facts show "averageResponseTime s =
      Nearest (real_of_int (sum_list (map responseTime (results s))) / real (length (results s)))"
    by (simp add: js_div_def)
  then show "averageResponseTime s \<noteq> NaN" by simp
next
  assume "list_all (\<lambda>(j, u). probe_ends_simple parse T (envs j) u) (enumerate 0 (WEBSITE_URLS env))"
  then show "\<exists>s. pingAllWebsites_simple parse T envs (WEBSITE_URLS env) = Some s"
    by (rule cycle_simple_returns)
qed

theorem average_is_mean_witness:
  "WEBSITE_URLS [''WEBSITE_URLS'' \<mapsto> ''https://example.com, not a url''] =
     [''https://example.com'', ''not a url''] \<and>
   list_all (\<lambda>(j, u). probe_ends_simple sampleURL 30000 (sample_envs j) u)
     (enumerate 0 (WEBSITE_URLS [''WEBSITE_URLS'' \<mapsto> ''https://example.com, not a url''])) \<and>
   (\<exists>s. pingAllWebsites_simple sampleURL 30000 sample_envs
          (WEBSITE_URLS [''WEBSITE_URLS'' \<mapsto> ''https://example.com, not a url'']) = Some s \<and>
        averageResponseTime s =
          Nearest (real_of_int (sum_list (map responseTime (results s))) / real (length (results s))))"
proof -
  let ?cfg = "[''WEBSITE_URLS'' \<mapsto> ''https://example.com, not a url'']"
  have config: "WEBSITE_URLS ?cfg = [''https://example.com'', ''not a url'']"
    by (simp add: WEBSITE_URLS_def trim_def js_whitespace_def)
  have ends: "list_all (\<lambda>(j, u). probe_ends_simple sampleURL 30000 (sample_envs j) u)
     (enumerate 0 (WEBSITE_URLS ?cfg))"
    by (simp add: config probe_ends_simple_def request_ends_simple_def sample_defs request_def
        timeout_out_of_range_def options_of_def)
  note inst = average_is_mean [where parse = sampleURL and T = 30000 and envs = sample_envs
      and env = ?cfg]
  from mp [OF conjunct2 [OF inst] ends] obtain s where
    s: "pingAllWebsites_simple sampleURL 30000 sample_envs (WEBSITE_URLS ?cfg) = Some s" ..
  from mp [OF conjunct1 [OF inst [where s = s]] s]
  have "averageResponseTime s =
      Nearest (real_of_int (sum_list (map responseTime (results s))) / real (length (results s)))"
    by (elim conjE)
  with s have "\<exists>s. pingAllWebsites_simple sampleURL 30000 sample_envs (WEBSITE_URLS ?cfg) = Some s \<and>
      averageResponseTime s =
        Nearest (real_of_int (sum_list (map responseTime (results s))) / real (length (results s)))"
    by (intro exI conjI)
  with config ends show ?thesis by (intro conjI)
qed

section \<open>A connection closed after the status line\<close>

text \<open>
  C4. The claim is that every endpoint gets exactly one outcome, in order, and that no
  failure of an endpoint stops the cycle. In \<^verbatim>\<open>simple-ping.js\<close> the promise is resolved
  only at the end of the body and rejected only by the request's \<^verbatim>\<open>timeout\<close> and \<^verbatim>\<open>error\<close>
  events. A server that sends the status line and the headers and then closes the
  connection causes none of the three: the promise of the first endpoint stays pending,
  the cycle never returns and the second endpoint is never probed. The service, which
  resolves when the response arrives, gives each endpoint its outcome on the same events.
\<close>

theorem dropped_connection_stops_cycle:
  "request (dropped_envs 0) True
     (options_of \<lparr>protocol = ''https:'', hostname = ''example.com'', port = [],
                  pathname = ''/'', search = []\<rparr> 30000) =
     Inr [(1120, Response 200)] \<and>
   pingWebsite_simple sampleURL 30000 (dropped_envs 0) ''https://example.com'' = Pending \<and>
   pingAllWebsites_simple sampleURL 30000 dropped_envs [''https://example.com'', ''http://t.co/health''] =
     None \<and>
   pingAllWebsites_svc sampleURL 60000 dropped_envs [''https://example.com'', ''http://t.co/health''] =
     Some [\<lparr>url = ''https://example.com'', success = Some True, statusCode = Some 200,
            responseTime = 120, size_js = None, error = None\<rparr>,
           \<lparr>url = ''http://t.co/health'', success = Some False, statusCode = Some 404,
            responseTime = 150, size_js = None, error = None\<rparr>]"
  by (simp add: pingAllWebsites_simple_def pingAllWebsites_svc_def sample_defs probe_defs)

section \<open>The exit code of \<^verbatim>\<open>simple-ping.js\<close>\<close>

lemma invalid_url_fails:
  assumes "\<not> parses parse u"
  shows "\<exists>e. pingWebsite_simple parse T env u = Rejected e \<and> \<not> truthy_success e"
  using assms
  by (cases "parse u") (simp_all add: parses_def pingWebsite_simple_def failure_def truthy_success_def)

text \<open>When the cycle returns, the exit code says whether every outcome is a success; and
  with no valid URL the process exits with 1 before any cycle.\<close>

lemma exit_code_when_cycle_returns:
  "(validUrls_simple parse urls = [] \<longrightarrow> main_simple parse T envs urls = 1) \<and>
   (urls \<noteq> [] \<and> pingAllWebsites_simple parse T envs urls = Some s \<longrightarrow>
      main_simple parse T envs urls = (if list_all truthy_success (results s) then 0 else 1))"
proof (intro conjI impI)
  assume "validUrls_simple parse urls = []"
  then show "main_simple parse T envs urls = 1"
    by (simp add: main_simple_def)
next
  assume prems: "urls \<noteq> [] \<and> pingAllWebsites_simple parse T envs urls = Some s"
  then have s: "pingAllWebsites_simple parse T envs urls = Some s" by simp
  note facts = pingAllWebsites_simple_results [OF s]
  show "main_simple parse T envs urls = (if list_all truthy_success (results s) then 0 else 1)"
  proof (cases "validUrls_simple parse urls = []")
    case True
    from prems obtain website rest where urls: "urls = website # rest"
      by (cases urls) auto
    with True have "\<not> parses parse website"
      by (auto simp: validUrls_simple_def split: if_splits)
    from invalid_url_fails [OF this] obtain e where
      e: "pingWebsite_simple parse T (envs 0) website = Rejected e" "\<not> truthy_success e"
      by blast
    from facts urls e(1) obtain others where "results s = e # others"
      by (cases "results s") (auto simp: settled_value_def)
    with e(2) have "\<not> list_all truthy_success (results s)" by simp
    with True show ?thesis by (simp add: main_simple_def)
  next
    case False
    from facts have "failed s > 0 \<longleftrightarrow> \<not> list_all truthy_success (results s)"
      by (simp add: filter_all_length)
    with False s show ?thesis by (simp add: main_simple_def)
  qed
qed

text \<open>
  C7. The claim is that the process exits with 0 if and only if every endpoint
  succeeded. When the only endpoint answers with the status line of a 500 and the
  connection is then closed, the promise of \<^verbatim>\<open>simple-ping.js\<close> stays pending (see C4),
  \<^verbatim>\<open>main\<close> never reaches either \<^verbatim>\<open>process.exit\<close>, the event loop runs dry and the process
  ends with code 0, with no endpoint succeeded.
\<close>

theorem pending_probe_exits_zero:
  "validUrls_simple sampleURL [''https://example.com''] = [''https://example.com''] \<and>
   pingWebsite_simple sampleURL 30000 (sample_env [(1120, Response 500)]) ''https://example.com'' =
     Pending \<and>
   pingAllWebsites_simple sampleURL 30000 (\<lambda>i. sample_env [(1120, Response 500)])
     [''https://example.com''] = None \<and>
   main_simple sampleURL 30000 (\<lambda>i. sample_env [(1120, Response 500)]) [''https://example.com''] = 0"
  by (simp add: main_simple_def validUrls_simple_def parses_def pingAllWebsites_simple_def
      sample_defs probe_defs)

section \<open>Validation does not narrow the cycle\<close>

text \<open>
  C1. The claim is that a cycle probes exactly the endpoints that passed validation.
  With the configuration \<^verbatim>\<open>WEBSITE_URLS="https://example.com, not a url"\<close> validation
  keeps one URL of two (and \<^verbatim>\<open>simple-ping.js\<close> logs that the invalid one was skipped),
  yet the cycle of either program runs over the configured list: it calls
  \<^verbatim>\<open>pingWebsite\<close> on the invalid entry too, records its rejection as a second outcome and
  counts it as a failure, so that \<^verbatim>\<open>simple-ping.js\<close> exits with 1 although the only
  valid endpoint answered 200.
\<close>

theorem cycle_probes_invalid_entry:
  "WEBSITE_URLS [''WEBSITE_URLS'' \<mapsto> ''https://example.com, not a url''] =
     [''https://example.com'', ''not a url''] \<and>
   validUrls_simple sampleURL [''https://example.com'', ''not a url''] = [''https://example.com''] \<and>
   pingAllWebsites_simple sampleURL 30000 sample_envs [''https://example.com'', ''not a url''] =
     Some \<lparr>successful = 1, failed = 1, total = 2, averageResponseTime = Nearest (121 / 2),
           results = [\<lparr>url = ''https://example.com'', success = Some True, statusCode = Some 200,
                       responseTime = 120, size_js = Some 2, error = None\<rparr>,
                      \<lparr>url = ''not a url'', success = None, statusCode = None,
                       responseTime = 1, size_js = None, error = Some ''Invalid URL: Invalid URL''\<rparr>]\<rparr> \<and>
   main_simple sampleURL 30000 sample_envs [''https://example.com'', ''not a url''] = 1 \<and>
   validateWebsites sampleURL [''https://example.com'', ''not a url''] = [''https://example.com''] \<and>
   (case createCronJob sampleURL 60000 [''https://example.com'', ''not a url''] of
      Inl code \<Rightarrow> None
    | Inr job \<Rightarrow> job sample_envs) =
     Some [\<lparr>url = ''https://example.com'', success = Some True, statusCode = Some 200,
            responseTime = 120, size_js = None, error = None\<rparr>,
           \<lparr>url = ''not a url'', success = None, statusCode = None,
            responseTime = 1, size_js = None, error = Some ''Invalid URL''\<rparr>]"
proof -
  have config: "WEBSITE_URLS [''WEBSITE_URLS'' \<mapsto> ''https://example.com, not a url''] =
     [''https://example.com'', ''not a url'']"
    by (simp add: WEBSITE_URLS_def trim_def js_whitespace_def)
  have valid: "filter (parses sampleURL) [''https://example.com'', ''not a url''] = [''https://example.com'']"
    by (simp add: parses_def sampleURL_def)
  have simple: "pingAllWebsites_simple sampleURL 30000 sample_envs [''https://example.com'', ''not a url''] =
     Some \<lparr>successful = 1, failed = 1, total = 2, averageResponseTime = Nearest (121 / 2),
           results = [\<lparr>url = ''https://example.com'', success = Some True, statusCode = Some 200,
                       responseTime = 120, size_js = Some 2, error = None\<rparr>,
                      \<lparr>url = ''not a url'', success = None, statusCode = None,
                       responseTime = 1, size_js = None, error = Some ''Invalid URL: Invalid URL''\<rparr>]\<rparr>"
    by (simp add: pingAllWebsites_simple_def sample_defs probe_defs truthy_success_def js_div_def)
  have svc: "pingAllWebsites_svc sampleURL 60000 sample_envs [''https://example.com'', ''not a url''] =
     Some [\<lparr>url = ''https://example.com'', success = Some True, statusCode = Some 200,
            responseTime = 120, size_js = None, error = None\<rparr>,
           \<lparr>url = ''not a url'', success = None, statusCode = None,
            responseTime = 1, size_js = None, error = Some ''Invalid URL''\<rparr>]"
    by (simp add: pingAllWebsites_svc_def sample_defs probe_defs)
  from config valid simple svc show ?thesis
    by (simp add: validUrls_simple_def validateWebsites_def main_simple_def createCronJob_def)
qed

section \<open>When the promise of a probe resolves and when it rejects\<close>

text \<open>A rejection is recorded by the cycle in the place of its endpoint.\<close>

lemma pushed_nth:
  assumes "map Some rs = map (\<lambda>(j, u). settled_value (P j u)) (enumerate 0 urls)"
    and "j < length urls"
  shows "settled_value (P j (urls ! j)) = Some (rs ! j)"
proof -
  from assms(1) have "length (map Some rs) = length (enumerate 0 urls)"
    by (metis length_map)
  then have len: "length rs = length urls" by simp
  with assms(2) have "map Some rs ! j = Some (rs ! j)" by simp
  moreover from assms(2)
  have "map (\<lambda>(j, u). settled_value (P j u)) (enumerate 0 urls) ! j = settled_value (P j (urls ! j))"
    by (simp add: nth_enumerate_eq)
  ultimately show ?thesis using assms(1) by simp
qed

lemma rejection_recorded:
  assumes "map Some rs = map (\<lambda>(j, u). settled_value (P j u)) (enumerate 0 urls)"
    and "\<And>j u. promise_shaped u (P j u)"
    and "j < length urls" and "P j (urls ! j) = Rejected e"
  shows "rs ! j = e \<and> \<not> truthy_success e"
proof -
  from pushed_nth [OF assms(1,3)] assms(4) have "rs ! j = e"
    by (simp add: settled_value_def)
  moreover from assms(2) [of "urls ! j" j] assms(4) have "\<not> truthy_success e"
    by (simp add: promise_shaped_def failure_shaped_def truthy_success_def)
  ultimately show ?thesis by simp
qed

text \<open>
  C10, as amended. The promise rejects at once, with the message of the exception,
  when the URL does not parse and also when the request cannot be made, which is the
  case for every URL when \<^verbatim>\<open>REQUEST_TIMEOUT\<close> is negative or not finite. Otherwise the
  promise of the service resolves exactly when the response (the status code) is the
  first of the response, timeout and error events of the request, and rejects exactly when
  a timeout or an error is. The promise of \<^verbatim>\<open>simple-ping.js\<close> resolves exactly when the
  end of the response body is reached before any timeout or error; it rejects exactly
  when a timeout or an error comes before the response or after it but before the end of
  its body, and the rejected value then carries no status code although one was received.
  In both programs a cycle in which every probe has an end returns, and it records every
  rejected value, in its place, as a failed outcome.
\<close>

theorem settlement:
  "(parse u = Inl message \<longrightarrow>
      pingWebsite_svc parse T env u i =
        Rejected (failure u message (catchTime env - startTime env)) \<and>
      pingWebsite_simple parse T env u =
        Rejected (failure u (''Invalid URL: '' @ message) (catchTime env - startTime env))) \<and>
   (parse u = Inr p \<and> timeout_out_of_range T \<longrightarrow>
      request env (protocol p = ''https:'') (options_of p T) = Inl (rangeError env T)) \<and>
   (parse u = Inr p \<and> request env (protocol p = ''https:'') (options_of p T) = Inl message \<longrightarrow>
      pingWebsite_svc parse T env u i =
        Rejected (failure u message (catchTime env - startTime env)) \<and>
      pingWebsite_simple parse T env u =
        Rejected (failure u (''Invalid URL: '' @ message) (catchTime env - startTime env))) \<and>
   (parse u = Inr p \<and> request env (protocol p = ''https:'') (options_of p T) = Inr trace \<longrightarrow>
      ((\<exists>r. pingWebsite_svc parse T env u i = Fulfilled r) \<longleftrightarrow>
         (\<exists>pre now c rest. trace = pre @ (now, Response c) # rest \<and> list_all no_effect pre)) \<and>
      ((\<exists>e. pingWebsite_svc parse T env u i = Rejected e) \<longleftrightarrow>
         (\<exists>pre now ev rest. trace = pre @ (now, ev) # rest \<and> list_all no_effect pre \<and> failing ev)) \<and>
      ((\<exists>r. pingWebsite_simple parse T env u = Fulfilled r) \<longleftrightarrow>
         (\<exists>pre now c body t rest. trace = pre @ (now, Response c) # body @ (t, End) # rest \<and>
            list_all no_effect pre \<and> list_all in_body body)) \<and>
      ((\<exists>e. pingWebsite_simple parse T env u = Rejected e) \<longleftrightarrow>
         (\<exists>pre now ev rest. trace = pre @ (now, ev) # rest \<and> list_all no_effect pre \<and> failing ev) \<or>
         (\<exists>pre now c body t ev rest. trace = pre @ (now, Response c) # body @ (t, ev) # rest \<and>
            list_all no_effect pre \<and> list_all in_body body \<and> failing ev))) \<and>
   (list_all (\<lambda>(j, u). probe_ends_simple parse T (envs j) u) (enumerate 0 urls) \<longrightarrow>
      (\<exists>s. pingAllWebsites_simple parse T envs urls = Some s \<and>
           (\<forall>j e. j < length urls \<and> pingWebsite_simple parse T (envs j) (urls ! j) = Rejected e \<longrightarrow>
                  results s ! j = e \<and> \<not> truthy_success e))) \<and>
   (list_all (\<lambda>(j, u). probe_ends_svc parse T (envs j) u) (enumerate 0 urls) \<longrightarrow>
      (\<exists>rs. pingAllWebsites_svc parse T envs urls = Some rs \<and>
           (\<forall>j e. j < length urls \<and> pingWebsite_svc parse T (envs j) (urls ! j) j = Rejected e \<longrightarrow>
                  rs ! j = e \<and> \<not> truthy_success e)))"
proof (intro conjI impI)
  assume "parse u = Inl message"
  then show "pingWebsite_svc parse T env u i =
      Rejected (failure u message (catchTime env - startTime env))"
    and "pingWebsite_simple parse T env u =
      Rejected (failure u (''Invalid URL: '' @ message) (catchTime env - startTime env))"
    by (simp_all add: pingWebsite_svc_def pingWebsite_simple_def)
next
  assume "parse u = Inr p \<and> timeout_out_of_range T"
  then show "request env (protocol p = ''https:'') (options_of p T) = Inl (rangeError env T)"
    by (simp add: request_def options_of_def)
next
  assume "parse u = Inr p \<and> request env (protocol p = ''https:'') (options_of p T) = Inl message"
  then show "pingWebsite_svc parse T env u i =
      Rejected (failure u message (catchTime env - startTime env))"
    and "pingWebsite_simple parse T env u =
      Rejected (failure u (''Invalid URL: '' @ message) (catchTime env - startTime env))"
    by (simp_all add: pingWebsite_svc_def pingWebsite_simple_def)
next
  assume "parse u = Inr p \<and> request env (protocol p = ''https:'') (options_of p T) = Inr trace"
  then have svc: "pingWebsite_svc parse T env u i = foldl (handle_svc u (startTime env)) Pending trace"
    and simple: "pingWebsite_simple parse T env u =
      settled (foldl (handle_simple u (startTime env)) initial trace)"
    by (simp_all add: pingWebsite_svc_def pingWebsite_simple_def initial_def)
  show "(\<exists>r. pingWebsite_svc parse T env u i = Fulfilled r) \<longleftrightarrow>
         (\<exists>pre now c rest. trace = pre @ (now, Response c) # rest \<and> list_all no_effect pre)"
    unfolding svc by (rule svc_resolves_iff)
  show "(\<exists>e. pingWebsite_svc parse T env u i = Rejected e) \<longleftrightarrow>
         (\<exists>pre now ev rest. trace = pre @ (now, ev) # rest \<and> list_all no_effect pre \<and> failing ev)"
    unfolding svc by (rule svc_rejects_iff)
  show "(\<exists>r. pingWebsite_simple parse T env u = Fulfilled r) \<longleftrightarrow>
         (\<exists>pre now c body t rest. trace = pre @ (now, Response c) # body @ (t, End) # rest \<and>
            list_all no_effect pre \<and> list_all in_body body)"
    unfolding simple by (rule simple_resolves_iff)
  show "(\<exists>e. pingWebsite_simple parse T env u = Rejected e) \<longleftrightarrow>
         (\<exists>pre now ev rest. trace = pre @ (now, ev) # rest \<and> list_all no_effect pre \<and> failing ev) \<or>
         (\<exists>pre now c body t ev rest. trace = pre @ (now, Response c) # body @ (t, ev) # rest \<and>
            list_all no_effect pre \<and> list_all in_body body \<and> failing ev)"
    unfolding simple by (rule simple_rejects_iff)
next
  assume "list_all (\<lambda>(j, u). probe_ends_simple parse T (envs j) u) (enumerate 0 urls)"
  from cycle_simple_returns [OF this]
  obtain s where s: "pingAllWebsites_simple parse T envs urls = Some s" ..
  from pingAllWebsites_simple_results [OF s]
  have pushed: "map Some (results s) =
      map (\<lambda>(j, u). settled_value (pingWebsite_simple parse T (envs j) u)) (enumerate 0 urls)"
    by simp
  have "\<forall>j e. j < length urls \<and> pingWebsite_simple parse T (envs j) (urls ! j) = Rejected e \<longrightarrow>
      results s ! j = e \<and> \<not> truthy_success e"
    using rejection_recorded [OF pushed pingWebsite_simple_shaped] by blast
  with s show "\<exists>s. pingAllWebsites_simple parse T envs urls = Some s \<and>
      (\<forall>j e. j < length urls \<and> pingWebsite_simple parse T (envs j) (urls ! j) = Rejected e \<longrightarrow>
             results s ! j = e \<and> \<not> truthy_success e)"
    by blast
next
  assume "list_all (\<lambda>(j, u). probe_ends_svc parse T (envs j) u) (enumerate 0 urls)"
  from cycle_svc_returns [OF this]
  obtain rs where rs: "pingAllWebsites_svc parse T envs urls = Some rs" ..
  from pingAllWebsites_svc_results [OF rs]
  have pushed: "map Some rs =
      map (\<lambda>(j, u). settled_value (pingWebsite_svc parse T (envs j) u j)) (enumerate 0 urls)"
    by simp
  have "\<forall>j e. j < length urls \<and> pingWebsite_svc parse T (envs j) (urls ! j) j = Rejected e \<longrightarrow>
      rs ! j = e \<and> \<not> truthy_success e"
    using rejection_recorded [OF pushed pingWebsite_svc_shaped] by blast
  with rs show "\<exists>rs. pingAllWebsites_svc parse T envs urls = Some rs \<and>
      (\<forall>j e. j < length urls \<and> pingWebsite_svc parse T (envs j) (urls ! j) j = Rejected e \<longrightarrow>
             rs ! j = e \<and> \<not> truthy_success e)"
    by blast
qed

theorem settlement_witness:
  "(\<exists>r. pingWebsite_svc sampleURL 30000 (sample_env [(1120, Response 200), (31120, Timeout)])
          ''https://example.com'' 0 = Fulfilled r) \<and>
   (\<exists>e. pingWebsite_simple sampleURL 30000 (sample_env [(1120, Response 200), (31120, Timeout)])
          ''https://example.com'' = Rejected e) \<and>
   pingWebsite_simple sampleURL 30000 (sample_env []) ''not a url'' =
     Rejected (failure ''not a url'' ''Invalid URL: Invalid URL'' 1) \<and>
   timeout_out_of_range (- 5) \<and>
   pingWebsite_svc sampleURL (- 5) (sample_env [(1120, Response 200)]) ''https://example.com'' 0 =
     Rejected (failure ''https://example.com'' (sample_rangeError (- 5)) 1) \<and>
   list_all (\<lambda>(j, u). probe_ends_simple sampleURL 30000 (sample_envs j) u)
     (enumerate 0 [''https://example.com'', ''not a url'']) \<and>
   (\<exists>s. pingAllWebsites_simple sampleURL 30000 sample_envs [''https://example.com'', ''not a url''] =
          Some s \<and>
        results s ! 1 = failure ''not a url'' ''Invalid URL: Invalid URL'' 1 \<and>
        \<not> truthy_success (failure ''not a url'' ''Invalid URL: Invalid URL'' 1))"
proof -
  let ?p = "\<lparr>protocol = ''https:'', hostname = ''example.com'', port = [],
             pathname = ''/'', search = []\<rparr>"
  let ?trace = "[(1120, Response 200), (31120, Timeout)]"
  let ?env = "sample_env ?trace"
  let ?urls = "[''https://example.com'', ''not a url'']"
  have parsed: "sampleURL ''https://example.com'' = Inr ?p \<and>
      request ?env (protocol ?p = ''https:'') (options_of ?p 30000) = Inr ?trace"
    by (simp add: sample_defs request_def timeout_out_of_range_def options_of_def)
  note probe = mp [OF conjunct1 [OF conjunct2 [OF conjunct2 [OF conjunct2 [OF settlement
      [where parse = sampleURL and u = "''https://example.com''" and p = ?p and T = 30000
        and env = ?env and trace = ?trace and i = 0]]]]] parsed]
  have "?trace = [] @ (1120, Response 200) # [(31120, Timeout)] \<and> list_all no_effect []"
    by simp
  then have "\<exists>pre now c rest. ?trace = pre @ (now, Response c) # rest \<and> list_all no_effect pre"
    by blast
  with probe have svc: "\<exists>r. pingWebsite_svc sampleURL 30000 ?env ''https://example.com'' 0 = Fulfilled r"
    by blast
  have "?trace = [] @ (1120, Response 200) # [] @ (31120, Timeout) # [] \<and>
      list_all no_effect [] \<and> list_all in_body [] \<and> failing Timeout"
    by simp
  then have "\<exists>pre now c body t ev rest. ?trace = pre @ (now, Response c) # body @ (t, ev) # rest \<and>
      list_all no_effect pre \<and> list_all in_body body \<and> failing ev"
    by blast
  with probe have simple: "\<exists>e. pingWebsite_simple sampleURL 30000 ?env ''https://example.com'' = Rejected e"
    by blast
  have invalid: "sampleURL ''not a url'' = Inl ''Invalid URL''"
    by (simp add: sampleURL_def)
  from mp [OF conjunct1 [OF settlement [where parse = sampleURL and u = "''not a url''"
      and message = "''Invalid URL''" and T = 30000 and env = "sample_env []"]] invalid]
  have unparsed: "pingWebsite_simple sampleURL 30000 (sample_env []) ''not a url'' =
     Rejected (failure ''not a url'' ''Invalid URL: Invalid URL'' 1)"
    by (simp add: sample_env_def)
  have range: "timeout_out_of_range (- 5)"
    by (simp add: timeout_out_of_range_def)
  let ?env' = "sample_env [(1120, Response 200)]"
  from range have negative: "sampleURL ''https://example.com'' = Inr ?p \<and> timeout_out_of_range (- 5)"
    by (simp add: sampleURL_def)
  note inst = settlement [where parse = sampleURL and u = "''https://example.com''" and p = ?p
      and T = "- 5" and env = ?env' and message = "sample_rangeError (- 5)" and i = 0]
  from mp [OF conjunct1 [OF conjunct2 [OF inst]] negative]
  have "request ?env' (protocol ?p = ''https:'') (options_of ?p (- 5)) = Inl (sample_rangeError (- 5))"
    by (simp add: sample_env_def)
  with negative
  have thrown: "sampleURL ''https://example.com'' = Inr ?p \<and>
      request ?env' (protocol ?p = ''https:'') (options_of ?p (- 5)) = Inl (sample_rangeError (- 5))"
    by (intro conjI) (elim conjE)
  from mp [OF conjunct1 [OF conjunct2 [OF conjunct2 [OF inst]]] thrown]
  have refused: "pingWebsite_svc sampleURL (- 5) ?env' ''https://example.com'' 0 =
      Rejected (failure ''https://example.com'' (sample_rangeError (- 5)) 1)"
    by (simp add: sample_env_def)
  have ends: "list_all (\<lambda>(j, u). probe_ends_simple sampleURL 30000 (sample_envs j) u)
      (enumerate 0 ?urls)"
    by (simp add: probe_ends_simple_def request_ends_simple_def sample_defs request_def
        timeout_out_of_range_def options_of_def)
  from mp [OF conjunct1 [OF conjunct2 [OF conjunct2 [OF conjunct2 [OF conjunct2 [OF settlement
      [where parse = sampleURL and T = 30000 and envs = sample_envs and urls = ?urls]]]]]] ends]
  obtain s where s: "pingAllWebsites_simple sampleURL 30000 sample_envs ?urls = Some s"
    and recorded: "\<forall>j e. j < length ?urls \<and>
        pingWebsite_simple sampleURL 30000 (sample_envs j) (?urls ! j) = Rejected e \<longrightarrow>
        results s ! j = e \<and> \<not> truthy_success e"
    by (elim exE conjE)
  have second: "1 < length ?urls \<and> pingWebsite_simple sampleURL 30000 (sample_envs 1) (?urls ! 1) =
      Rejected (failure ''not a url'' ''Invalid URL: Invalid URL'' 1)"
    by (simp add: sample_defs pingWebsite_simple_def)
  from mp [OF spec [OF spec [OF recorded]] second] s
  have cycle: "\<exists>s. pingAllWebsites_simple sampleURL 30000 sample_envs ?urls = Some s \<and>
      results s ! 1 = failure ''not a url'' ''Invalid URL: Invalid URL'' 1 \<and>
      \<not> truthy_success (failure ''not a url'' ''Invalid URL: Invalid URL'' 1)"
    by (intro exI conjI) (elim conjE, assumption)+
  from svc simple unparsed range refused ends cycle show ?thesis by (intro conjI)
qed

text \<open>The claim as first stated fails in \<^verbatim>\<open>simple-ping.js\<close>: a response with status 200
  arrives, the body stalls until the socket's idle timeout, and the promise rejects.\<close>

theorem reject_after_status_counterexample:
  "sampleURL ''https://example.com'' =
     Inr \<lparr>protocol = ''https:'', hostname = ''example.com'', port = [], pathname = ''/'', search = []\<rparr> \<and>
   request (sample_env [(1120, Response 200), (31120, Timeout)]) True
     (options_of \<lparr>protocol = ''https:'', hostname = ''example.com'', port = [],
                  pathname = ''/'', search = []\<rparr> 30000) =
     Inr [(1120, Response 200), (31120, Timeout)] \<and>
   pingWebsite_simple sampleURL 30000 (sample_env [(1120, Response 200), (31120, Timeout)])
     ''https://example.com'' =
     Rejected \<lparr>url = ''https://example.com'', success = None, statusCode = None,
               responseTime = 30120, size_js = None, error = Some ''Request timeout''\<rparr>"
  by (simp add: sample_defs probe_defs)

end
